theory Spec2Isabelle
  imports Complex_Main "HOL-Library.Char_ord" "HOL-Library.List_Lexorder"
begin

section \<open>Shared vocabulary: exceptions, dates, files, the remote service\<close>

text \<open>
  Every exception that the modelled Python code can raise is a constructor of \<open>error\<close>;
  a function that may raise returns \<open>error + 'a\<close> (\<open>Inl\<close> is the raise).
\<close>

datatype error =
    OverflowError
  | HTTPStatusError nat
  | RequestError
  | FileNotFoundError string
  | BadZipFile
  | DataSourceError
  | ArrowInvalid
  | KeyError
  | DatabaseError

subsection \<open>\<open>datetime.date\<close>\<close>

text \<open>
  A \<open>datetime.date\<close> is represented by its proleptic Gregorian ordinal
  (\<open>date.toordinal()\<close>): Python compares dates by that order, \<open>(b - a).days\<close> is the
  difference of the ordinals, and \<open>d + timedelta(days=n)\<close> is \<open>fromordinal\<close> of the
  sum, raising \<open>OverflowError\<close> when the sum leaves \<open>1 .. date.max.toordinal()\<close>.
\<close>

type_synonym date = int

definition MAXORDINAL :: int where
  "MAXORDINAL = 3652059"

definition valid_date :: "date \<Rightarrow> bool" where
  "valid_date d \<longleftrightarrow> 1 \<le> d \<and> d \<le> MAXORDINAL"

definition days_between :: "date \<Rightarrow> date \<Rightarrow> int" where
  "days_between a b = b - a"

definition add_days :: "date \<Rightarrow> int \<Rightarrow> error + date" where
  "add_days d n =
     (let ordinal = d + n
      in if 0 < ordinal \<and> ordinal \<le> MAXORDINAL then Inr ordinal else Inl OverflowError)"

text \<open>The constants of \<open>download_ais.py\<close>: \<open>date(2024, 1, 1)\<close> and \<open>date(2024, 12, 31)\<close>.\<close>

definition START_DATE :: date where
  "START_DATE = 738886"

definition END_DATE :: date where
  "END_DATE = 739251"

text \<open>
  \<open>date.isoformat()\<close>: year, month and day of an ordinal, written \<open>YYYY-MM-DD\<close>.
  The conversion follows the standard library's ordinal-to-date computation.
\<close>

definition DAYS_BEFORE_MONTH :: "int list" where
  "DAYS_BEFORE_MONTH = [-1, 0, 31, 59, 90, 120, 151, 181, 212, 243, 273, 304, 334]"

definition DAYS_IN_MONTH :: "int list" where
  "DAYS_IN_MONTH = [-1, 31, 28, 31, 30, 31, 30, 31, 31, 30, 31, 30, 31]"

definition ord2ymd :: "int \<Rightarrow> int \<times> int \<times> int" where
  "ord2ymd ordinal =
     (let n = ordinal - 1;
          n400 = n div 146097; n = n mod 146097;
          n100 = n div 36524; n = n mod 36524;
          n4 = n div 1461; n = n mod 1461;
          n1 = n div 365; n = n mod 365;
          year = n400 * 400 + 1 + n100 * 100 + n4 * 4 + n1
      in if n1 = 4 \<or> n100 = 4 then (year - 1, 12, 31)
         else
           let leapyear = (n1 = 3 \<and> (n4 \<noteq> 24 \<or> n100 = 3));
               month = (n + 50) div 32;
               preceding = DAYS_BEFORE_MONTH ! nat month
                            + (if month > 2 \<and> leapyear then 1 else 0)
           in if preceding > n
              then
                let month = month - 1;
                    preceding = preceding - (DAYS_IN_MONTH ! nat month
                                  + (if month = 2 \<and> leapyear then 1 else 0))
                in (year, month, n - preceding + 1)
              else (year, month, n - preceding + 1))"

definition digit :: "int \<Rightarrow> char" where
  "digit k = ''0123456789'' ! nat (k mod 10)"

definition pad2 :: "int \<Rightarrow> string" where
  "pad2 k = [digit (k div 10), digit k]"

definition pad4 :: "int \<Rightarrow> string" where
  "pad4 k = [digit (k div 1000), digit (k div 100), digit (k div 10), digit k]"

definition isoformat :: "date \<Rightarrow> string" where
  "isoformat d = (case ord2ymd d of (y, m, dd) \<Rightarrow> pad4 y @ ''-'' @ pad2 m @ ''-'' @ pad2 dd)"

subsection \<open>The local file system and the remote service\<close>

text \<open>
  A file system is a map from paths to file contents; a path that is not in the domain
  does not exist. Directories are not modelled: \<open>mkdir(parents=True, exist_ok=True)\<close>
  has no effect here and opening a file for writing always succeeds. A byte is a
  number below 256.
\<close>

type_synonym bytes = "nat list"
type_synonym path = string
type_synonym fs = "path \<rightharpoonup> bytes"

text \<open>
  What one \<open>httpx.stream("GET", url, ...)\<close> does: the request fails before any response
  (\<open>RequestFailed\<close>: connection error, timeout, too many redirects), or a response arrives
  with a status code and a body that \<open>iter_bytes\<close> yields chunk by chunk; the Boolean
  tells whether the body ends normally (\<open>True\<close>) or a transport error is raised after
  the listed chunks were yielded (\<open>False\<close>).
\<close>

datatype http_result =
    RequestFailed
  | Response nat "bytes list" bool

type_synonym remote = "string \<Rightarrow> http_result"

text \<open>The observable actions of the ingestion scripts, in program order.\<close>

datatype event =
    NetGet string
  | Sleep
  | Progress nat nat
  | Complete nat nat nat

record world =
  files :: fs
  trace :: "event list"

definition exists_file :: "world \<Rightarrow> path \<Rightarrow> bool" where
  "exists_file w p \<longleftrightarrow> files w p \<noteq> None"

definition unlink :: "path \<Rightarrow> world \<Rightarrow> world" where
  "unlink p w = w\<lparr>files := (files w)(p := None)\<rparr>"

definition open_wb :: "path \<Rightarrow> world \<Rightarrow> world" where
  "open_wb p w = w\<lparr>files := (files w)(p \<mapsto> [])\<rparr>"

definition write_chunk :: "path \<Rightarrow> bytes \<Rightarrow> world \<Rightarrow> world" where
  "write_chunk p chunk w =
     w\<lparr>files := (files w)(p \<mapsto> (case files w p of None \<Rightarrow> chunk | Some old \<Rightarrow> old @ chunk))\<rparr>"

fun write_chunks :: "path \<Rightarrow> bytes list \<Rightarrow> world \<Rightarrow> world" where
  "write_chunks p [] w = w"
| "write_chunks p (chunk # rest) w = write_chunks p rest (write_chunk p chunk w)"

definition emit :: "event \<Rightarrow> world \<Rightarrow> world" where
  "emit e w = w\<lparr>trace := trace w @ [e]\<rparr>"

definition joinpath :: "path \<Rightarrow> string \<Rightarrow> path" where
  "joinpath dir name = dir @ ''/'' @ name"

text \<open>A name matches the glob pattern \<open>*suffix\<close> when it ends with the suffix.\<close>

definition endswith :: "string \<Rightarrow> string \<Rightarrow> bool" where
  "endswith s suffix \<longleftrightarrow>
     length suffix \<le> length s \<and> drop (length s - length suffix) s = suffix"

text \<open>\<open>response.raise_for_status()\<close> raises unless the status is a 2xx code.\<close>

definition is_success :: "nat \<Rightarrow> bool" where
  "is_success status \<longleftrightarrow> 200 \<le> status \<and> status \<le> 299"

text \<open>
  The body of the \<open>try\<close> block shared by \<open>download_file\<close> and \<open>download_mpa_zip\<close>:
  \<^verbatim>\<open>
  with httpx.stream("GET", url, follow_redirects=True, timeout=300) as response:
      response.raise_for_status()
      with open(path, "wb") as f:
          for chunk in response.iter_bytes(chunk_size=CHUNK_SIZE):
              f.write(chunk)
  \<close>
  The file is opened (created empty) only after the status check.
\<close>

definition stream_to_file :: "remote \<Rightarrow> string \<Rightarrow> path \<Rightarrow> world \<Rightarrow> (error + unit) \<times> world" where
  "stream_to_file net url p w =
     (let w1 = emit (NetGet url) w
      in case net url of
           RequestFailed \<Rightarrow> (Inl RequestError, w1)
         | Response status chunks finished \<Rightarrow>
             if \<not> is_success status then (Inl (HTTPStatusError status), w1)
             else
               let w2 = write_chunks p chunks (open_wb p w1)
               in if finished then (Inr (), w2) else (Inl RequestError, w2))"

section \<open>\<open>pipeline/ingestion/download_ais.py\<close>\<close>

definition BASE_URL :: string where
  "BASE_URL = ''https://marinecadastre.gov/downloads/ais2024''"

definition AIS_OUTPUT_DIR :: path where
  "AIS_OUTPUT_DIR = ''data/raw/ais''"

text \<open>
  \<^verbatim>\<open>
  dates = []; current = start
  while current <= end:
      dates.append(current)
      current += timedelta(days=1)
  return dates
  \<close>
\<close>

function generate_dates_loop :: "date list \<Rightarrow> date \<Rightarrow> date \<Rightarrow> error + date list" where
  "generate_dates_loop dates current end_d =
     (if current \<le> end_d
      then (case add_days current 1 of
              Inl e \<Rightarrow> Inl e
            | Inr next_d \<Rightarrow> generate_dates_loop (dates @ [current]) next_d end_d)
      else Inr dates)"
  by pat_completeness auto
termination
  by (relation "measure (\<lambda>(dates, current, end_d). nat (end_d + 1 - current))")
     (auto simp: add_days_def Let_def split: if_splits)

declare generate_dates_loop.simps [simp del]

definition generate_dates :: "date \<Rightarrow> date \<Rightarrow> error + date list" where
  "generate_dates start end_d = generate_dates_loop [] start end_d"

definition ais_filename :: "date \<Rightarrow> string" where
  "ais_filename file_date = ''ais-'' @ isoformat file_date @ ''.parquet''"

definition ais_url :: "date \<Rightarrow> string" where
  "ais_url file_date = BASE_URL @ ''/'' @ ais_filename file_date"

text \<open>
  \<open>download_file\<close> returns \<open>True\<close> or \<open>False\<close>; an exception other than the two it
  catches would propagate (\<open>Inl\<close>).
\<close>

definition download_file :: "remote \<Rightarrow> date \<Rightarrow> path \<Rightarrow> world \<Rightarrow> (error + bool) \<times> world" where
  "download_file net file_date output_dir w =
     (let filename = ais_filename file_date;
          url = BASE_URL @ ''/'' @ filename;
          output_path = joinpath output_dir filename
      in if exists_file w output_path then (Inr False, w)
         else
           case stream_to_file net url output_path w of
             (Inr u, w') \<Rightarrow> (Inr True, w')
           | (Inl (HTTPStatusError code), w') \<Rightarrow> (Inr False, w')
           | (Inl RequestError, w') \<Rightarrow>
               (Inr False, if exists_file w' output_path then unlink output_path w' else w')
           | (Inl e, w') \<Rightarrow> (Inl e, w'))"

record counters =
  downloaded :: nat
  skipped :: nat
  failed :: nat

text \<open>One iteration of the \<open>for i, file_date in enumerate(dates, start=1)\<close> loop.\<close>

definition fetch_unit ::
  "remote \<Rightarrow> nat \<Rightarrow> nat \<Rightarrow> date \<Rightarrow> counters \<times> world \<Rightarrow> (error + counters) \<times> world" where
  "fetch_unit net n_dates i file_date cw =
     (case cw of (c, w) \<Rightarrow>
        (case download_file net file_date AIS_OUTPUT_DIR (emit (Progress i n_dates) w) of
           (Inl e, w') \<Rightarrow> (Inl e, w')
         | (Inr result, w') \<Rightarrow>
             if result then (Inr (c\<lparr>downloaded := downloaded c + 1\<rparr>), emit Sleep w')
             else
               let filename = ais_filename file_date
               in if exists_file w' (joinpath AIS_OUTPUT_DIR filename)
                  then (Inr (c\<lparr>skipped := skipped c + 1\<rparr>), w')
                  else (Inr (c\<lparr>failed := failed c + 1\<rparr>), w')))"

fun fetch_loop ::
  "remote \<Rightarrow> nat \<Rightarrow> nat \<Rightarrow> date list \<Rightarrow> counters \<times> world \<Rightarrow> (error + counters) \<times> world" where
  "fetch_loop net n_dates i [] (c, w) = (Inr c, w)"
| "fetch_loop net n_dates i (file_date # rest) (c, w) =
     (case fetch_unit net n_dates i file_date (c, w) of
        (Inl e, w') \<Rightarrow> (Inl e, w')
      | (Inr c', w') \<Rightarrow> fetch_loop net n_dates (i + 1) rest (c', w'))"

definition download_all_ais_data :: "remote \<Rightarrow> world \<Rightarrow> (error + unit) \<times> world" where
  "download_all_ais_data net w =
     (case generate_dates START_DATE END_DATE of
        Inl e \<Rightarrow> (Inl e, w)
      | Inr dates \<Rightarrow>
          (case fetch_loop net (length dates) 1 dates
                  (\<lparr>downloaded = 0, skipped = 0, failed = 0\<rparr>, w) of
             (Inl e, w') \<Rightarrow> (Inl e, w')
           | (Inr c, w') \<Rightarrow>
               (Inr (), emit (Complete (downloaded c) (skipped c) (failed c)) w')))"


section \<open>\<open>pipeline/ingestion/download_mpa.py\<close>\<close>

subsection \<open>Geodataframes\<close>

text \<open>
  A bound of a geometry is a double: a finite number, an infinity, or NaN (the bounds of a
  missing or empty geometry). \<open>fl_le a b\<close> is the comparison \<open>a <= b\<close> of two doubles and
  \<open>fl_ge a b\<close> is \<open>a >= b\<close>; every comparison with NaN is false.
\<close>

datatype fl = Fin real | PInf | NInf | NaN

fun fl_le :: "fl \<Rightarrow> fl \<Rightarrow> bool" where
  "fl_le NaN b = False"
| "fl_le a NaN = False"
| "fl_le NInf b = True"
| "fl_le a PInf = True"
| "fl_le (Fin a) (Fin b) = (a \<le> b)"
| "fl_le a b = False"

definition fl_ge :: "fl \<Rightarrow> fl \<Rightarrow> bool" where
  "fl_ge a b = fl_le b a"

text \<open>
  A feature is a row of the geodataframe: its attribute columns and its geometry, of which
  only the bounds (\<open>gdf.geometry.bounds\<close>) are used by the code.
\<close>

record feature =
  site :: string
  minx :: fl
  miny :: fl
  maxx :: fl
  maxy :: fl

text \<open>A coordinate reference system, with the result of \<open>to_epsg()\<close>.\<close>

datatype crs = CRS (to_epsg: "nat option")

record geodataframe =
  gdf_crs :: "crs option"
  features :: "feature list"

text \<open>
  The libraries the script calls, taken as parameters:
  \<^item> \<open>unzip\<close>: \<open>zipfile.ZipFile(zip_path).extractall(tmpdir)\<close> followed by the listing of the
    extracted tree (files and directories, in the order \<open>rglob\<close> visits them); \<open>None\<close>
    when the bytes are not a zip archive;
  \<^item> \<open>read_file\<close>: \<open>gpd.read_file\<close> on a path of the extracted tree; \<open>None\<close> when it raises;
  \<^item> \<open>reproject\<close>: what \<open>to_crs(epsg=4326)\<close> does to one feature;
  \<^item> \<open>to_parquet\<close>: the bytes \<open>gdf.to_parquet\<close> writes.
\<close>

record extlib =
  unzip :: "bytes \<Rightarrow> path list option"
  read_file :: "bytes \<Rightarrow> path \<Rightarrow> geodataframe option"
  reproject :: "feature \<Rightarrow> feature"
  to_parquet :: "geodataframe \<Rightarrow> bytes"

definition MPA_URL :: string where
  "MPA_URL = ''https://marineprotectedareas.noaa.gov/media/data/''
             @ ''NOAA_Marine_Protected_Areas_Inventory_2023.zip''"

definition MPA_OUTPUT_DIR :: path where
  "MPA_OUTPUT_DIR = ''data/raw/mpa''"

definition MPA_OUTPUT_FILE :: path where
  "MPA_OUTPUT_FILE = joinpath MPA_OUTPUT_DIR ''mpa_inventory.parquet''"

definition US_COAST_BBOX :: "real \<times> real \<times> real \<times> real" where
  "US_COAST_BBOX = (-130, 24, -65, 49)"

definition download_mpa_zip :: "remote \<Rightarrow> path \<Rightarrow> world \<Rightarrow> (error + path) \<times> world" where
  "download_mpa_zip net output_path w =
     (let zip_path = joinpath output_path ''mpa_inventory.zip''
      in if exists_file w zip_path then (Inr zip_path, w)
         else
           case stream_to_file net MPA_URL zip_path w of
             (Inr u, w') \<Rightarrow> (Inr zip_path, w')
           | (Inl (HTTPStatusError code), w') \<Rightarrow>
               (Inl (HTTPStatusError code),
                if exists_file w' zip_path then unlink zip_path w' else w')
           | (Inl RequestError, w') \<Rightarrow>
               (Inl RequestError, if exists_file w' zip_path then unlink zip_path w' else w')
           | (Inl e, w') \<Rightarrow> (Inl e, w'))"

text \<open>
  The temporary directory lives only inside the call, so the file system is the same
  before and after; the function only reads the zip file.
\<close>

definition extract_and_read_geodatabase :: "extlib \<Rightarrow> path \<Rightarrow> world \<Rightarrow> error + geodataframe" where
  "extract_and_read_geodatabase L zip_path w =
     (case files w zip_path of
        None \<Rightarrow> Inl (FileNotFoundError zip_path)
      | Some archive \<Rightarrow>
          (case unzip L archive of
             None \<Rightarrow> Inl BadZipFile
           | Some tree \<Rightarrow>
               (case filter (\<lambda>p. endswith p ''.gdb'') tree of
                  [] \<Rightarrow> Inl (FileNotFoundError ''No .gdb directory found in downloaded zip'')
                | gdb_dir # others \<Rightarrow>
                    (case read_file L archive gdb_dir of
                       None \<Rightarrow> Inl DataSourceError
                     | Some gdf \<Rightarrow> Inr gdf))))"

definition to_crs :: "(feature \<Rightarrow> feature) \<Rightarrow> nat \<Rightarrow> geodataframe \<Rightarrow> geodataframe" where
  "to_crs reproj epsg gdf = \<lparr>gdf_crs = Some (CRS (Some epsg)), features = map reproj (features gdf)\<rparr>"

definition in_mask :: "real \<times> real \<times> real \<times> real \<Rightarrow> feature \<Rightarrow> bool" where
  "in_mask bbox f =
     (case bbox of (lon_min, lat_min, lon_max, lat_max) \<Rightarrow>
        fl_ge (minx f) (Fin lon_min) \<and> fl_le (maxx f) (Fin lon_max)
        \<and> fl_ge (miny f) (Fin lat_min) \<and> fl_le (maxy f) (Fin lat_max))"

definition filter_us_coast :: "(feature \<Rightarrow> feature) \<Rightarrow> geodataframe \<Rightarrow> geodataframe" where
  "filter_us_coast reproj gdf =
     (let gdf = (case gdf_crs gdf of
                   None \<Rightarrow> gdf
                 | Some c \<Rightarrow> if to_epsg c \<noteq> Some 4326 then to_crs reproj 4326 gdf else gdf);
          mask = map (in_mask US_COAST_BBOX) (features gdf);
          filtered = gdf\<lparr>features := map fst (filter snd (zip (features gdf) mask))\<rparr>
      in filtered)"

definition save_to_parquet :: "extlib \<Rightarrow> geodataframe \<Rightarrow> path \<Rightarrow> world \<Rightarrow> world" where
  "save_to_parquet L gdf output_path w = w\<lparr>files := (files w)(output_path \<mapsto> to_parquet L gdf)\<rparr>"

definition download_mpa_data :: "extlib \<Rightarrow> remote \<Rightarrow> world \<Rightarrow> (error + unit) \<times> world" where
  "download_mpa_data L net w =
     (if exists_file w MPA_OUTPUT_FILE then (Inr (), w)
      else
        case download_mpa_zip net MPA_OUTPUT_DIR w of
          (Inl e, w1) \<Rightarrow> (Inl e, w1)
        | (Inr zip_path, w1) \<Rightarrow>
            (case extract_and_read_geodatabase L zip_path w1 of
               Inl e \<Rightarrow> (Inl e, w1)
             | Inr gdf \<Rightarrow>
                 let gdf_us = filter_us_coast (reproject L) gdf;
                     w2 = save_to_parquet L gdf_us MPA_OUTPUT_FILE w1
                 in if exists_file w2 zip_path then (Inr (), unlink zip_path w2)
                    else (Inl (FileNotFoundError zip_path), w2)))"

section \<open>\<open>pipeline/database/load_data.py\<close>\<close>

text \<open>
  The three target relations, and the local inputs of the loaders. A row is a tuple of
  column values written as text; the per-column conversions of the two row-batch loaders
  are not modelled, every source record gives one row. Reading a Parquet file raises
  (\<open>Corrupt\<close>), or it reads but building the rows from its columns raises
  (\<open>Malformed\<close>: a column or a geometry is missing), or it gives rows (\<open>Parquet rows\<close>). \<open>ais_dir\<close> is the listing of
  \<open>AIS_DIR\<close>, name and content of every file, in the order the operating system gives.
\<close>

datatype table = marine_protected_areas | cetacean_sightings | ais_positions

type_synonym row = "string list"

datatype parquet = Parquet "row list" | Malformed | Corrupt

record data_files =
  mpa_file :: "parquet option"
  cetacean_file :: "parquet option"
  ais_dir :: "(string \<times> parquet) list"

text \<open>
  What the loaders do, in program order: a loader is entered, a file is read, rows are
  inserted into a relation, the staging relation is created, filled and dropped, and the
  messages the code logs.
\<close>

datatype db_event =
    LoaderCalled table
  | FileRead table string
  | Inserted table nat
  | StagingCreated
  | StagingCopied nat
  | StagingDropped
  | FileMissing table
  | Skipped table nat
  | FileLoaded nat nat string nat nat
  | AisComplete nat
  | FinalCount table nat
  | ConnectionClosed

text \<open>
  The database: the rows of the three relations, the staging relation of the session
  (\<open>None\<close> when it does not exist), the log, and what the server makes of the two
  statements of the staged load, taken as parameters:
  \<^item> \<open>copy_in rows\<close> is the outcome of \<open>COPY ais_staging ... FROM STDIN\<close> on the buffer
    that \<open>to_csv\<close> wrote for these rows: \<open>None\<close> when the statement raises (a line
    with a wrong number of columns, a value that a typed staging column does not parse),
    otherwise the rows it put into the staging relation;
  \<^item> \<open>convert staged\<close> is the outcome of the \<open>INSERT INTO ais_positions ... SELECT\<close> on
    the staged rows: \<open>None\<close> when it raises (a timestamp cast, \<open>ST_GeomFromText\<close>, a
    \<open>NOT NULL\<close> or \<open>CHAR(1)\<close> column), otherwise the typed rows it inserted.
  Each statement is atomic, and in autocommit mode its effect stays. The schema has no
  unique or foreign key constraint besides the generated \<open>id\<close>, so neither outcome
  depends on the rows already stored. No operation changes the two parameters.
\<close>

record db =
  rows_of :: "table \<Rightarrow> row list"
  staging :: "row list option"
  dblog :: "db_event list"
  copy_in :: "row list \<Rightarrow> row list option"
  convert :: "row list \<Rightarrow> row list option"

definition logged :: "db_event \<Rightarrow> db \<Rightarrow> db" where
  "logged e d = d\<lparr>dblog := dblog d @ [e]\<rparr>"

definition insert_rows :: "table \<Rightarrow> row list \<Rightarrow> db \<Rightarrow> db" where
  "insert_rows t rs d =
     logged (Inserted t (length rs)) (d\<lparr>rows_of := (rows_of d)(t := rows_of d t @ rs)\<rparr>)"

definition count_rows :: "db \<Rightarrow> table \<Rightarrow> nat" where
  "count_rows d t = length (rows_of d t)"

text \<open>
  Every loader returns Python's \<open>None\<close> on each of its paths (the early \<open>return\<close> and
  the end of the body); the return value is a \<open>nat option\<close> whose \<open>None\<close> is that
  \<open>None\<close>.
\<close>

definition load_mpa_data :: "data_files \<Rightarrow> db \<Rightarrow> (error + nat option) \<times> db" where
  "load_mpa_data F d =
     (let d = logged (LoaderCalled marine_protected_areas) d
      in case mpa_file F of
           None \<Rightarrow> (Inr None, logged (FileMissing marine_protected_areas) d)
         | Some Corrupt \<Rightarrow>
             (Inl ArrowInvalid, logged (FileRead marine_protected_areas ''mpa_inventory.parquet'') d)
         | Some Malformed \<Rightarrow>
             (Inl KeyError, logged (FileRead marine_protected_areas ''mpa_inventory.parquet'') d)
         | Some (Parquet records) \<Rightarrow>
             (Inr None,
              insert_rows marine_protected_areas records
                (logged (FileRead marine_protected_areas ''mpa_inventory.parquet'') d)))"

definition load_cetacean_data :: "data_files \<Rightarrow> db \<Rightarrow> (error + nat option) \<times> db" where
  "load_cetacean_data F d =
     (let d = logged (LoaderCalled cetacean_sightings) d
      in case cetacean_file F of
           None \<Rightarrow> (Inr None, logged (FileMissing cetacean_sightings) d)
         | Some Corrupt \<Rightarrow>
             (Inl ArrowInvalid,
              logged (FileRead cetacean_sightings ''us_cetacean_sightings.parquet'') d)
         | Some Malformed \<Rightarrow>
             (Inl KeyError,
              logged (FileRead cetacean_sightings ''us_cetacean_sightings.parquet'') d)
         | Some (Parquet records) \<Rightarrow>
             (Inr None,
              insert_rows cetacean_sightings records
                (logged (FileRead cetacean_sightings ''us_cetacean_sightings.parquet'') d)))"

text \<open>
  The statements of one iteration of \<open>load_ais_data\<close>. \<open>CREATE TEMP TABLE ais_staging\<close>
  raises when the relation is already there. \<open>COPY\<close> raises when the relation is missing
  or the server rejects the buffer, and otherwise appends what it parsed. \<open>INSERT ...
  SELECT\<close> raises when the relation is missing or a staged row does not convert, and
  otherwise appends the typed rows to \<open>ais_positions\<close>. \<open>DROP TABLE\<close> removes the
  relation. A statement that raises changes nothing, and nothing undoes the statements
  before it: the staging relation stays in the session.
\<close>

definition create_staging :: "db \<Rightarrow> error + db" where
  "create_staging d =
     (case staging d of
        Some old \<Rightarrow> Inl DatabaseError
      | None \<Rightarrow> Inr (logged StagingCreated (d\<lparr>staging := Some []\<rparr>)))"

definition copy_expert :: "row list \<Rightarrow> db \<Rightarrow> error + db" where
  "copy_expert buffer d =
     (case staging d of
        None \<Rightarrow> Inl DatabaseError
      | Some old \<Rightarrow>
          (case copy_in d buffer of
             None \<Rightarrow> Inl DatabaseError
           | Some parsed \<Rightarrow>
               Inr (logged (StagingCopied (length parsed)) (d\<lparr>staging := Some (old @ parsed)\<rparr>))))"

definition insert_from_staging :: "db \<Rightarrow> error + db" where
  "insert_from_staging d =
     (case staging d of
        None \<Rightarrow> Inl DatabaseError
      | Some staged \<Rightarrow>
          (case convert d staged of
             None \<Rightarrow> Inl DatabaseError
           | Some typed \<Rightarrow> Inr (insert_rows ais_positions typed d)))"

definition drop_staging :: "db \<Rightarrow> db" where
  "drop_staging d = logged StagingDropped (d\<lparr>staging := None\<rparr>)"

text \<open>
  The \<open>for file_idx, filepath in enumerate(parquet_files, start=1)\<close> loop, with
  \<open>total_loaded\<close> and the database as its state.
\<close>

fun load_ais_files ::
  "nat \<Rightarrow> nat \<Rightarrow> (string \<times> parquet) list \<Rightarrow> nat \<times> db \<Rightarrow> (error + nat) \<times> db" where
  "load_ais_files n_files file_idx [] (total_loaded, d) = (Inr total_loaded, d)"
| "load_ais_files n_files file_idx ((name, content) # rest) (total_loaded, d) =
     (let d = logged (FileRead ais_positions name) d
      in case content of
           Corrupt \<Rightarrow> (Inl ArrowInvalid, d)
         | Malformed \<Rightarrow> (Inl KeyError, d)
         | Parquet flat \<Rightarrow>
             let n_rows = length flat
             in (case create_staging d of
                   Inl e \<Rightarrow> (Inl e, d)
                 | Inr d \<Rightarrow>
                     (case copy_expert flat d of
                        Inl e \<Rightarrow> (Inl e, d)
                      | Inr d \<Rightarrow>
                          (case insert_from_staging d of
                             Inl e \<Rightarrow> (Inl e, d)
                           | Inr d \<Rightarrow>
                               let d = drop_staging d;
                                   total_loaded = total_loaded + n_rows;
                                   d = logged (FileLoaded file_idx n_files name n_rows
                                                 total_loaded) d
                               in load_ais_files n_files (file_idx + 1) rest (total_loaded, d)))))"

definition glob_parquet :: "(string \<times> parquet) list \<Rightarrow> (string \<times> parquet) list" where
  "glob_parquet listing = filter (\<lambda>entry. endswith (fst entry) ''.parquet'') listing"

definition load_ais_data :: "data_files \<Rightarrow> db \<Rightarrow> (error + nat option) \<times> db" where
  "load_ais_data F d =
     (let d = logged (LoaderCalled ais_positions) d;
          parquet_files = sort_key fst (glob_parquet (ais_dir F))
      in if parquet_files = [] then (Inr None, logged (FileMissing ais_positions) d)
         else
           case load_ais_files (length parquet_files) 1 parquet_files (0, d) of
             (Inl e, d) \<Rightarrow> (Inl e, d)
           | (Inr total_loaded, d) \<Rightarrow> (Inr None, logged (AisComplete total_loaded) d))"

text \<open>
  \<open>load_all_data\<close>: the \<open>for table in [...]\<close> loop of the \<open>try\<close> block, the final
  counts, and the \<open>finally\<close> clause that closes the connection on every path. The
  database state is the one seen through the connection once \<open>psycopg2.connect\<close> has
  returned; \<open>count_rows\<close> is \<open>SELECT COUNT(*)\<close>. In autocommit mode every statement
  takes effect at once, so the state at a raise is the state that stays.
\<close>

definition run_loader :: "data_files \<Rightarrow> table \<Rightarrow> db \<Rightarrow> (error + nat option) \<times> db" where
  "run_loader F t d =
     (if t = marine_protected_areas then load_mpa_data F d
      else if t = cetacean_sightings then load_cetacean_data F d
      else if t = ais_positions then load_ais_data F d
      else (Inr None, d))"

fun load_tables :: "data_files \<Rightarrow> table list \<Rightarrow> db \<Rightarrow> (error + unit) \<times> db" where
  "load_tables F [] d = (Inr (), d)"
| "load_tables F (t # ts) d =
     (let count = count_rows d t
      in if count > 0 then load_tables F ts (logged (Skipped t count) d)
         else
           case run_loader F t d of
             (Inl e, d') \<Rightarrow> (Inl e, d')
           | (Inr r, d') \<Rightarrow> load_tables F ts d')"

fun final_counts :: "table list \<Rightarrow> db \<Rightarrow> db" where
  "final_counts [] d = d"
| "final_counts (t # ts) d = final_counts ts (logged (FinalCount t (count_rows d t)) d)"

definition load_all_data :: "data_files \<Rightarrow> db \<Rightarrow> (error + unit) \<times> db" where
  "load_all_data F d =
     (case load_tables F [marine_protected_areas, cetacean_sightings, ais_positions] d of
        (Inl e, d') \<Rightarrow> (Inl e, logged ConnectionClosed d')
      | (Inr u, d') \<Rightarrow>
          (Inr (),
           logged ConnectionClosed
             (final_counts [ais_positions, cetacean_sightings, marine_protected_areas] d')))"

section \<open>Vocabulary of the properties and concrete inputs\<close>

text \<open>
  A fetch fails at the transport level when the request fails before a response, the
  response has a non-success status, or the body stream breaks before its end.
\<close>

definition transport_failure :: "http_result \<Rightarrow> bool" where
  "transport_failure r =
     (case r of
        RequestFailed \<Rightarrow> True
      | Response status chunks finished \<Rightarrow> \<not> is_success status \<or> \<not> finished)"

text \<open>The bytes of a response body, all chunks in order.\<close>

definition response_body :: "http_result \<Rightarrow> bytes" where
  "response_body r =
     (case r of RequestFailed \<Rightarrow> [] | Response status chunks finished \<Rightarrow> concat chunks)"

text \<open>
  Three remote services: one that is unreachable, one whose body stream breaks after
  three bytes, one that delivers the three bytes; and worlds with and without the file
  of 2024-01-01.
\<close>

definition net_down :: remote where
  "net_down url = RequestFailed"

definition net_midstream :: remote where
  "net_midstream url = Response 200 [[80, 65], [82]] False"

definition net_ok :: remote where
  "net_ok url = Response 200 [[80, 65], [82]] True"

definition empty_world :: world where
  "empty_world = \<lparr>files = Map.empty, trace = []\<rparr>"

definition no_counts :: counters where
  "no_counts = \<lparr>downloaded = 0, skipped = 0, failed = 0\<rparr>"

definition jan1_path :: path where
  "jan1_path = joinpath AIS_OUTPUT_DIR (ais_filename 738886)"

definition jan1_world :: world where
  "jan1_world = \<lparr>files = [jan1_path \<mapsto> [80, 65, 82]], trace = []\<rparr>"

text \<open>
  The claim's wording of the inclusion test, on the bounds of a feature:
  \<open>minx >= -130 and maxx <= -65 and miny >= 24 and maxy <= 49\<close>.
\<close>

definition spec_bbox_within_region :: "feature \<Rightarrow> bool" where
  "spec_bbox_within_region f \<longleftrightarrow>
     fl_ge (minx f) (Fin (-130)) \<and> fl_le (maxx f) (Fin (-65))
     \<and> fl_ge (miny f) (Fin 24) \<and> fl_le (maxy f) (Fin 49)"

text \<open>
  Two features of the specification's example: one with bounds \<open>(-70, 30, -68, 32)\<close>,
  one with bounds \<open>(-66, 30, -64, 32)\<close>, which crosses the maximum longitude; a feature
  with no geometry; and a frame that holds the three in the canonical reference.
\<close>

definition feature_inside :: feature where
  "feature_inside =
     \<lparr>site = ''inside'', minx = Fin (-70), miny = Fin 30, maxx = Fin (-68), maxy = Fin 32\<rparr>"

definition feature_straddling :: feature where
  "feature_straddling =
     \<lparr>site = ''straddling'', minx = Fin (-66), miny = Fin 30, maxx = Fin (-64), maxy = Fin 32\<rparr>"

definition feature_empty :: feature where
  "feature_empty = \<lparr>site = ''empty'', minx = NaN, miny = NaN, maxx = NaN, maxy = NaN\<rparr>"

definition sample_gdf :: geodataframe where
  "sample_gdf =
     \<lparr>gdf_crs = Some (CRS (Some 4326)),
      features = [feature_straddling, feature_inside, feature_empty]\<rparr>"

text \<open>
  A stand-in for the libraries: the bytes \<open>80 75 1\<close> are an archive with no geodatabase,
  \<open>80 75 2\<close> an archive with one, anything else is not a zip file.
\<close>

definition toy_unzip :: "bytes \<Rightarrow> path list option" where
  "toy_unzip b =
     (if b = [80, 75, 1] then Some [''docs'', ''docs/readme.txt'']
      else if b = [80, 75, 2]
      then Some [''NOAA_MPAI_v2023.gdb'', ''NOAA_MPAI_v2023.gdb/a00000001.gdbtable'']
      else None)"

definition toy_read_file :: "bytes \<Rightarrow> path \<Rightarrow> geodataframe option" where
  "toy_read_file b p = Some sample_gdf"

definition toy_reproject :: "feature \<Rightarrow> feature" where
  "toy_reproject f = f"

definition toy_to_parquet :: "geodataframe \<Rightarrow> bytes" where
  "toy_to_parquet gdf = [80, 65, 82, length (features gdf)]"

definition toy_lib :: extlib where
  "toy_lib =
     \<lparr>unzip = toy_unzip, read_file = toy_read_file, reproject = toy_reproject,
      to_parquet = toy_to_parquet\<rparr>"

definition net_archive_without_gdb :: remote where
  "net_archive_without_gdb url = Response 200 [[80, 75], [1]] True"

definition net_archive_with_gdb :: remote where
  "net_archive_with_gdb url = Response 200 [[80, 75], [2]] True"

definition mpa_zip_path :: path where
  "mpa_zip_path = joinpath MPA_OUTPUT_DIR ''mpa_inventory.zip''"

definition truncated_zip_world :: world where
  "truncated_zip_world = \<lparr>files = [mpa_zip_path \<mapsto> [80, 75]], trace = []\<rparr>"

text \<open>
  The entries of the log that are the work of the loader of a relation: its call, its file
  reads, its inserts, and for \<open>ais_positions\<close> the staging statements and the progress
  lines. The orchestrator's own lines (skip, final count, connection closed) are not.
\<close>

fun loader_activity :: "table \<Rightarrow> db_event \<Rightarrow> bool" where
  "loader_activity t (LoaderCalled t') = (t = t')"
| "loader_activity t (FileRead t' name) = (t = t')"
| "loader_activity t (Inserted t' n) = (t = t')"
| "loader_activity t (FileMissing t') = (t = t')"
| "loader_activity t StagingCreated = (t = ais_positions)"
| "loader_activity t (StagingCopied n) = (t = ais_positions)"
| "loader_activity t StagingDropped = (t = ais_positions)"
| "loader_activity t (FileLoaded file_idx n_files name n_rows total_loaded) = (t = ais_positions)"
| "loader_activity t (AisComplete total_loaded) = (t = ais_positions)"
| "loader_activity t (Skipped t' n) = False"
| "loader_activity t (FinalCount t' n) = False"
| "loader_activity t ConnectionClosed = False"

text \<open>
  A relation is untouched between two database states when its rows are the same and the
  log has no new loader activity for it.
\<close>

definition untouched :: "table \<Rightarrow> db \<Rightarrow> db \<Rightarrow> bool" where
  "untouched t d d' \<longleftrightarrow>
     rows_of d' t = rows_of d t
     \<and> filter (loader_activity t) (dblog d') = filter (loader_activity t) (dblog d)"

text \<open>
  The rows of a readable file; the running totals of a sequence of row counts, as the
  specification describes them; and what the log says: the files reported as loaded and
  the totals reported with them, in order.
\<close>

fun rows_in :: "parquet \<Rightarrow> row list" where
  "rows_in (Parquet rs) = rs"
| "rows_in Malformed = []"
| "rows_in Corrupt = []"

text \<open>
  The server accepts the rows of a file when both statements of the staged load succeed
  on them; \<open>loaded_rows\<close> are the typed rows that then reach \<open>ais_positions\<close>.
\<close>

definition accepted :: "db \<Rightarrow> row list \<Rightarrow> bool" where
  "accepted d rs =
     (case copy_in d rs of
        None \<Rightarrow> False
      | Some parsed \<Rightarrow> (case convert d parsed of None \<Rightarrow> False | Some typed \<Rightarrow> True))"

text \<open>A file loads when it gives rows and the server accepts them.\<close>

definition loads :: "db \<Rightarrow> parquet \<Rightarrow> bool" where
  "loads d content =
     (case content of Parquet rs \<Rightarrow> accepted d rs | Malformed \<Rightarrow> False | Corrupt \<Rightarrow> False)"

definition loaded_rows :: "db \<Rightarrow> row list \<Rightarrow> row list" where
  "loaded_rows d rs =
     (case copy_in d rs of
        None \<Rightarrow> []
      | Some parsed \<Rightarrow> (case convert d parsed of None \<Rightarrow> [] | Some typed \<Rightarrow> typed))"

definition n_rows_of :: "string \<times> parquet \<Rightarrow> nat" where
  "n_rows_of entry = length (rows_in (snd entry))"

fun running_totals :: "nat \<Rightarrow> nat list \<Rightarrow> nat list" where
  "running_totals acc [] = []"
| "running_totals acc (n # ns) = (acc + n) # running_totals (acc + n) ns"

fun logged_files :: "db_event list \<Rightarrow> string list" where
  "logged_files [] = []"
| "logged_files (FileLoaded file_idx n_files name n_rows total_loaded # es) = name # logged_files es"
| "logged_files (e # es) = logged_files es"

fun logged_totals :: "db_event list \<Rightarrow> nat list" where
  "logged_totals [] = []"
| "logged_totals (FileLoaded file_idx n_files name n_rows total_loaded # es) =
     total_loaded # logged_totals es"
| "logged_totals (e # es) = logged_totals es"

text \<open>
  The end-to-end scenario of the specification: the files of 2024-01-01 to 2024-01-03, ten
  rows each, listed by the directory in another order and next to a file that is not a
  Parquet file; an empty database; and a database whose three relations hold a row. The
  stand-in server rejects a buffer in which a field holds a tab (\<open>to_csv\<close> quotes such a
  field and \<open>COPY\<close> then sees one column too many) and does not convert a row with an
  empty field; \<open>tab_file\<close> is a readable file with one such row.
\<close>

definition toy_copy_in :: "row list \<Rightarrow> row list option" where
  "toy_copy_in buffer =
     (if list_ex (\<lambda>r. list_ex (\<lambda>field. CHR 0x09 \<in> set field) r) buffer then None
      else Some buffer)"

definition toy_convert :: "row list \<Rightarrow> row list option" where
  "toy_convert staged = (if list_ex (\<lambda>r. [] \<in> set r) staged then None else Some staged)"

definition tab_file :: data_files where
  "tab_file =
     \<lparr>mpa_file = None, cetacean_file = None,
      ais_dir = [(''ais-2024-01-01.parquet'', Parquet [[''367000000'', [CHR ''A'', CHR 0x09, CHR ''B'']]])]\<rparr>"

definition ten_rows :: "string \<Rightarrow> row list" where
  "ten_rows day = replicate 10 [''367000000'', day]"

definition three_day_files :: data_files where
  "three_day_files =
     \<lparr>mpa_file = None, cetacean_file = None,
      ais_dir =
        [(''ais-2024-01-03.parquet'', Parquet (ten_rows ''2024-01-03'')),
         (''README.txt'', Corrupt),
         (''ais-2024-01-01.parquet'', Parquet (ten_rows ''2024-01-01'')),
         (''ais-2024-01-02.parquet'', Parquet (ten_rows ''2024-01-02''))]\<rparr>"

definition empty_db :: db where
  "empty_db =
     \<lparr>rows_of = (\<lambda>t. []), staging = None, dblog = [],
      copy_in = toy_copy_in, convert = toy_convert\<rparr>"

definition loaded_db :: db where
  "loaded_db =
     \<lparr>rows_of = (\<lambda>t. [[''row'']]), staging = None, dblog = [],
      copy_in = toy_copy_in, convert = toy_convert\<rparr>"

definition mpa_loaded_db :: db where
  "mpa_loaded_db =
     \<lparr>rows_of = (\<lambda>t. if t = marine_protected_areas then [[''site'']] else []),
      staging = None, dblog = [], copy_in = toy_copy_in, convert = toy_convert\<rparr>"

definition all_files :: data_files where
  "all_files =
     \<lparr>mpa_file = Some (Parquet [[''other site'']]),
      cetacean_file = Some (Parquet [[''whale'']]),
      ais_dir = [(''ais-2024-01-01.parquet'', Parquet [[''367000000'', ''2024-01-01'']])]\<rparr>"

section \<open>Verified properties\<close>

subsection \<open>Files written by a fetch\<close>

lemma trace_write_chunks: "trace (write_chunks p chunks w) = trace w"
  by (induction chunks arbitrary: w) (simp_all add: write_chunk_def)

lemma files_write_chunks_other: "q \<noteq> p \<Longrightarrow> files (write_chunks p chunks w) q = files w q"
  by (induction chunks arbitrary: w) (simp_all add: write_chunk_def)

lemma files_write_chunks_same:
  "files w p = Some old \<Longrightarrow> files (write_chunks p chunks w) p = Some (old @ concat chunks)"
  by (induction chunks arbitrary: w old) (simp_all add: write_chunk_def)

lemma files_unlink_written:
  "files (unlink p (write_chunks p chunks (open_wb p w))) = (files w)(p := None)"
proof
  fix q
  show "files (unlink p (write_chunks p chunks (open_wb p w))) q = ((files w)(p := None)) q"
    by (cases "q = p") (simp_all add: unlink_def files_write_chunks_other open_wb_def)
qed

lemma exists_written: "exists_file (write_chunks p chunks (open_wb p w)) p"
  by (simp add: exists_file_def files_write_chunks_same [where old = "[]"] open_wb_def)

lemma absent_upd_None: "files w p = None \<Longrightarrow> (files w)(p := None) = files w"
  by (rule ext) simp

lemma exists_file_emit [simp]: "exists_file (emit e w) p = exists_file w p"
  by (simp add: exists_file_def emit_def)

lemmas ais_eval = ais_filename_def ais_url_def BASE_URL_def AIS_OUTPUT_DIR_def joinpath_def
  isoformat_def ord2ymd_def pad2_def pad4_def digit_def DAYS_BEFORE_MONTH_def DAYS_IN_MONTH_def
  Let_def

subsection \<open>\<open>download_file\<close>\<close>

lemma download_file_existing:
  "exists_file w (joinpath output_dir (ais_filename file_date)) \<Longrightarrow>
   download_file net file_date output_dir w = (Inr False, w)"
  by (simp add: download_file_def Let_def)

lemma fst_download_file:
  "fst (download_file net file_date output_dir w) =
     Inr (\<not> exists_file w (joinpath output_dir (ais_filename file_date))
          \<and> \<not> transport_failure (net (ais_url file_date)))"
  by (simp add: download_file_def stream_to_file_def Let_def ais_url_def transport_failure_def
      split: http_result.splits)

lemma download_file_failed:
  assumes "\<not> exists_file w (joinpath output_dir (ais_filename file_date))"
    and "transport_failure (net (ais_url file_date))"
  shows "fst (download_file net file_date output_dir w) = Inr False
       \<and> files (snd (download_file net file_date output_dir w)) = files w
       \<and> \<not> exists_file (snd (download_file net file_date output_dir w))
             (joinpath output_dir (ais_filename file_date))
       \<and> trace (snd (download_file net file_date output_dir w))
           = trace w @ [NetGet (ais_url file_date)]"
proof (cases "net (ais_url file_date)")
  case RequestFailed
  with assms(1) show ?thesis
    by (simp add: download_file_def stream_to_file_def Let_def ais_url_def exists_file_def emit_def)
next
  case (Response status chunks finished)
  show ?thesis
  proof (cases "is_success status")
    case False
    with Response assms(1) show ?thesis
      by (simp add: download_file_def stream_to_file_def Let_def ais_url_def exists_file_def
          emit_def)
  next
    case True
    with Response assms(2) have nf: "\<not> finished"
      by (simp add: transport_failure_def)
    have absent: "files w (joinpath output_dir (ais_filename file_date)) = None"
      using assms(1) by (simp add: exists_file_def)
    have ex: "exists_file (write_chunks (joinpath output_dir (ais_filename file_date)) chunks
                 (open_wb (joinpath output_dir (ais_filename file_date))
                    (emit (NetGet (ais_url file_date)) w)))
               (joinpath output_dir (ais_filename file_date))"
      by (rule exists_written)
    have r: "download_file net file_date output_dir w =
               (Inr False,
                unlink (joinpath output_dir (ais_filename file_date))
                  (write_chunks (joinpath output_dir (ais_filename file_date)) chunks
                     (open_wb (joinpath output_dir (ais_filename file_date))
                        (emit (NetGet (ais_url file_date)) w))))"
      using Response True nf assms(1) ex
      by (simp add: download_file_def stream_to_file_def Let_def ais_url_def)
    show ?thesis
      unfolding r
      by (simp add: files_unlink_written exists_file_def emit_def absent absent_upd_None)
         (simp add: unlink_def trace_write_chunks open_wb_def)
  qed
qed

lemma download_file_success:
  assumes "\<not> exists_file w (joinpath output_dir (ais_filename file_date))"
    and "\<not> transport_failure (net (ais_url file_date))"
  shows "trace (snd (download_file net file_date output_dir w))
           = trace w @ [NetGet (ais_url file_date)]"
    and "exists_file (snd (download_file net file_date output_dir w))
           (joinpath output_dir (ais_filename file_date))"
proof -
  from assms(2) obtain status chunks
    where resp: "net (ais_url file_date) = Response status chunks True" and ok: "is_success status"
    by (auto simp: transport_failure_def split: http_result.splits)
  have r: "download_file net file_date output_dir w =
             (Inr True,
              write_chunks (joinpath output_dir (ais_filename file_date)) chunks
                (open_wb (joinpath output_dir (ais_filename file_date))
                   (emit (NetGet (ais_url file_date)) w)))"
    using resp ok assms(1)
    by (simp add: download_file_def stream_to_file_def Let_def ais_url_def)
  show "trace (snd (download_file net file_date output_dir w))
           = trace w @ [NetGet (ais_url file_date)]"
    unfolding r by (simp add: trace_write_chunks open_wb_def emit_def)
  show "exists_file (snd (download_file net file_date output_dir w))
           (joinpath output_dir (ais_filename file_date))"
    unfolding r by (simp add: exists_written)
qed

lemma jan1_names:
  "ais_filename 738886 = ''ais-2024-01-01.parquet''"
  "ais_url 738886 = ''https://marinecadastre.gov/downloads/ais2024/ais-2024-01-01.parquet''"
  "jan1_path = ''data/raw/ais/ais-2024-01-01.parquet''"
  by (simp_all add: jan1_path_def ais_eval)

text \<open>
  Claim C1. When the destination file is absent and the fetch fails at the transport
  level (no response, a non-success status, or a body stream that breaks), \<open>download_file\<close>
  returns \<open>False\<close>, the file system after the call is the one before it (so the
  destination is absent and every other file is untouched), and exactly one request was
  made. A file that was there before is never fetched at all (claim C3), so it is
  untouched as well.
\<close>

theorem download_file_failure_no_partial_file:
  assumes "\<not> exists_file w (joinpath output_dir (ais_filename file_date))"
    and "transport_failure (net (ais_url file_date))"
  shows "fst (download_file net file_date output_dir w) = Inr False
       \<and> files (snd (download_file net file_date output_dir w)) = files w
       \<and> \<not> exists_file (snd (download_file net file_date output_dir w))
             (joinpath output_dir (ais_filename file_date))
       \<and> trace (snd (download_file net file_date output_dir w))
           = trace w @ [NetGet (ais_url file_date)]"
  using assms by (rule download_file_failed)

text \<open>
  The body stream breaks after three bytes: the partial file is on disk when the error is
  raised, and it is gone when \<open>download_file\<close> returns.
\<close>

theorem download_file_failure_no_partial_file_witness:
  "\<not> exists_file empty_world (joinpath AIS_OUTPUT_DIR (ais_filename 738886))
   \<and> transport_failure (net_midstream (ais_url 738886))
   \<and> files (snd (stream_to_file net_midstream (ais_url 738886) jan1_path empty_world)) jan1_path
       = Some [80, 65, 82]
   \<and> fst (download_file net_midstream 738886 AIS_OUTPUT_DIR empty_world) = Inr False
   \<and> files (snd (download_file net_midstream 738886 AIS_OUTPUT_DIR empty_world)) = Map.empty
   \<and> \<not> exists_file (snd (download_file net_midstream 738886 AIS_OUTPUT_DIR empty_world))
         (joinpath AIS_OUTPUT_DIR (ais_filename 738886))"
proof -
  have h1: "\<not> exists_file empty_world (joinpath AIS_OUTPUT_DIR (ais_filename 738886))"
    by (simp add: exists_file_def empty_world_def)
  have h2: "transport_failure (net_midstream (ais_url 738886))"
    by (simp add: transport_failure_def net_midstream_def)
  have mid: "files (snd (stream_to_file net_midstream (ais_url 738886) jan1_path empty_world))
               jan1_path = Some [80, 65, 82]"
    by (simp add: stream_to_file_def net_midstream_def is_success_def Let_def write_chunk_def
        open_wb_def emit_def)
  from download_file_failure_no_partial_file
         [where w = empty_world and output_dir = AIS_OUTPUT_DIR and file_date = 738886
            and net = net_midstream, OF h1 h2]
       h1 h2 mid
  show ?thesis
    by (simp add: empty_world_def)
qed

text \<open>
  Claim C3. When the destination path holds a non-empty file, \<open>download_file\<close> returns
  \<open>False\<close> (the skipped outcome) and the world is unchanged: no request is added to the
  trace and no file is modified.
\<close>

theorem download_file_skips_existing:
  assumes "files w (joinpath output_dir (ais_filename file_date)) = Some content"
    and "content \<noteq> []"
  shows "download_file net file_date output_dir w = (Inr False, w)"
  using assms by (simp add: download_file_def Let_def exists_file_def)

theorem download_file_skips_existing_witness:
  "files jan1_world (joinpath AIS_OUTPUT_DIR (ais_filename 738886)) = Some [80, 65, 82]
   \<and> [80, 65, 82] \<noteq> ([] :: bytes)
   \<and> download_file net_ok 738886 AIS_OUTPUT_DIR jan1_world = (Inr False, jan1_world)
   \<and> trace jan1_world = []"
proof -
  have h1: "files jan1_world (joinpath AIS_OUTPUT_DIR (ais_filename 738886)) = Some [80, 65, 82]"
    by (simp add: jan1_world_def jan1_path_def)
  have h2: "[80, 65, 82] \<noteq> ([] :: bytes)"
    by simp
  from download_file_skips_existing
         [where w = jan1_world and output_dir = AIS_OUTPUT_DIR and file_date = 738886
            and net = net_ok, OF h1 h2]
       h1
  show ?thesis
    by (simp add: jan1_world_def)
qed

lemma files_written:
  "files (write_chunks p chunks (open_wb p w)) = (files w)(p \<mapsto> concat chunks)"
proof
  fix q
  show "files (write_chunks p chunks (open_wb p w)) q = ((files w)(p \<mapsto> concat chunks)) q"
  proof (cases "q = p")
    case True
    have "files (open_wb p w) p = Some []"
      by (simp add: open_wb_def)
    from files_write_chunks_same [OF this, of chunks] True show ?thesis
      by simp
  next
    case False
    then show ?thesis
      by (simp add: files_write_chunks_other open_wb_def)
  qed
qed

lemma download_file_success_files:
  assumes "\<not> exists_file w (joinpath output_dir (ais_filename file_date))"
    and "\<not> transport_failure (net (ais_url file_date))"
  shows "files (snd (download_file net file_date output_dir w))
           = (files w)(joinpath output_dir (ais_filename file_date)
                 \<mapsto> response_body (net (ais_url file_date)))"
proof -
  from assms(2) obtain status chunks
    where resp: "net (ais_url file_date) = Response status chunks True" and ok: "is_success status"
    by (auto simp: transport_failure_def split: http_result.splits)
  have r: "download_file net file_date output_dir w =
             (Inr True,
              write_chunks (joinpath output_dir (ais_filename file_date)) chunks
                (open_wb (joinpath output_dir (ais_filename file_date))
                   (emit (NetGet (ais_url file_date)) w)))"
    using resp ok assms(1)
    by (simp add: download_file_def stream_to_file_def Let_def ais_url_def)
  show ?thesis
    unfolding r by (simp add: files_written resp response_body_def emit_def)
qed

lemma download_file_false_files:
  assumes "fst (download_file net file_date output_dir w) = Inr False"
  shows "files (snd (download_file net file_date output_dir w)) = files w"
proof (cases "exists_file w (joinpath output_dir (ais_filename file_date))")
  case True
  then show ?thesis by (simp add: download_file_existing)
next
  case False
  with assms have "transport_failure (net (ais_url file_date))"
    by (simp add: fst_download_file)
  with False download_file_failed [of w output_dir file_date net] show ?thesis
    by blast
qed

text \<open>
  Claim C9. The Boolean that \<open>download_file\<close> returns is \<open>True\<close> exactly when the file
  was absent and the fetch succeeded, and then the file system afterwards is the one
  before with the whole response body written at the destination, after exactly one
  request. It is \<open>False\<close> when the unit is skipped (file present) and also when the
  fetch failed, and then the file system afterwards is the one before. When it is
  \<open>False\<close>, the loop body counts the unit as skipped if the destination exists after
  the call and as failed otherwise.
\<close>

theorem download_file_true_iff_downloaded:
  "(fst (download_file net file_date output_dir w) = Inr True \<longleftrightarrow>
      \<not> exists_file w (joinpath output_dir (ais_filename file_date))
      \<and> \<not> transport_failure (net (ais_url file_date)))
   \<and> (exists_file w (joinpath output_dir (ais_filename file_date)) \<longrightarrow>
        fst (download_file net file_date output_dir w) = Inr False)
   \<and> (\<not> exists_file w (joinpath output_dir (ais_filename file_date))
        \<and> transport_failure (net (ais_url file_date)) \<longrightarrow>
        fst (download_file net file_date output_dir w) = Inr False)
   \<and> (fst (download_file net file_date AIS_OUTPUT_DIR (emit (Progress i n_dates) w)) = Inr False \<longrightarrow>
        fetch_unit net n_dates i file_date (c, w) =
          (if exists_file (snd (download_file net file_date AIS_OUTPUT_DIR (emit (Progress i n_dates) w)))
                (joinpath AIS_OUTPUT_DIR (ais_filename file_date))
           then (Inr (c\<lparr>skipped := skipped c + 1\<rparr>),
                 snd (download_file net file_date AIS_OUTPUT_DIR (emit (Progress i n_dates) w)))
           else (Inr (c\<lparr>failed := failed c + 1\<rparr>),
                 snd (download_file net file_date AIS_OUTPUT_DIR (emit (Progress i n_dates) w)))))
   \<and> (fst (download_file net file_date output_dir w) = Inr True \<longrightarrow>
        files (snd (download_file net file_date output_dir w))
          = (files w)(joinpath output_dir (ais_filename file_date)
                \<mapsto> response_body (net (ais_url file_date)))
        \<and> exists_file (snd (download_file net file_date output_dir w))
             (joinpath output_dir (ais_filename file_date))
        \<and> trace (snd (download_file net file_date output_dir w))
             = trace w @ [NetGet (ais_url file_date)])
   \<and> (fst (download_file net file_date output_dir w) = Inr False \<longrightarrow>
        files (snd (download_file net file_date output_dir w)) = files w)"
proof -
  have caller: "fetch_unit net n_dates i file_date (c, w) =
          (if exists_file (snd (download_file net file_date AIS_OUTPUT_DIR (emit (Progress i n_dates) w)))
                (joinpath AIS_OUTPUT_DIR (ais_filename file_date))
           then (Inr (c\<lparr>skipped := skipped c + 1\<rparr>),
                 snd (download_file net file_date AIS_OUTPUT_DIR (emit (Progress i n_dates) w)))
           else (Inr (c\<lparr>failed := failed c + 1\<rparr>),
                 snd (download_file net file_date AIS_OUTPUT_DIR (emit (Progress i n_dates) w))))"
    if "fst (download_file net file_date AIS_OUTPUT_DIR (emit (Progress i n_dates) w)) = Inr False"
    using that
    by (cases "download_file net file_date AIS_OUTPUT_DIR (emit (Progress i n_dates) w)")
       (simp add: fetch_unit_def Let_def)
  have result: "(fst (download_file net file_date output_dir w) = Inr True \<longleftrightarrow>
      \<not> exists_file w (joinpath output_dir (ais_filename file_date))
      \<and> \<not> transport_failure (net (ais_url file_date)))
   \<and> (exists_file w (joinpath output_dir (ais_filename file_date)) \<longrightarrow>
        fst (download_file net file_date output_dir w) = Inr False)
   \<and> (\<not> exists_file w (joinpath output_dir (ais_filename file_date))
        \<and> transport_failure (net (ais_url file_date)) \<longrightarrow>
        fst (download_file net file_date output_dir w) = Inr False)"
    by (simp add: fst_download_file)
  have written: "files (snd (download_file net file_date output_dir w))
          = (files w)(joinpath output_dir (ais_filename file_date)
                \<mapsto> response_body (net (ais_url file_date)))
        \<and> exists_file (snd (download_file net file_date output_dir w))
             (joinpath output_dir (ais_filename file_date))
        \<and> trace (snd (download_file net file_date output_dir w))
             = trace w @ [NetGet (ais_url file_date)]"
    if "fst (download_file net file_date output_dir w) = Inr True"
  proof -
    from that have a: "\<not> exists_file w (joinpath output_dir (ais_filename file_date))"
      and b: "\<not> transport_failure (net (ais_url file_date))"
      by (simp_all add: fst_download_file)
    from a b download_file_success_files [of w output_dir file_date net]
      download_file_success [of w output_dir file_date net]
    show ?thesis
      by blast
  qed
  from caller result written download_file_false_files [of net file_date output_dir w]
  show ?thesis
    by blast
qed

text \<open>
  The file of 2024-01-01 is present (skipped), absent with the service down (failed), and
  absent with the service up (downloaded: the three bytes of the body are on disk).
\<close>

theorem download_file_true_iff_downloaded_witness:
  "exists_file jan1_world (joinpath AIS_OUTPUT_DIR (ais_filename 738886))
   \<and> fst (download_file net_ok 738886 AIS_OUTPUT_DIR jan1_world) = Inr False
   \<and> files (snd (download_file net_ok 738886 AIS_OUTPUT_DIR jan1_world)) = files jan1_world
   \<and> fst (fetch_unit net_ok 3 2 738886 (no_counts, jan1_world)) = Inr (no_counts\<lparr>skipped := 1\<rparr>)
   \<and> \<not> exists_file empty_world (joinpath AIS_OUTPUT_DIR (ais_filename 738886))
   \<and> transport_failure (net_down (ais_url 738886))
   \<and> fst (download_file net_down 738886 AIS_OUTPUT_DIR empty_world) = Inr False
   \<and> files (snd (download_file net_down 738886 AIS_OUTPUT_DIR empty_world)) = files empty_world
   \<and> fst (fetch_unit net_down 3 2 738886 (no_counts, empty_world)) = Inr (no_counts\<lparr>failed := 1\<rparr>)
   \<and> \<not> transport_failure (net_ok (ais_url 738886))
   \<and> fst (download_file net_ok 738886 AIS_OUTPUT_DIR empty_world) = Inr True
   \<and> files (snd (download_file net_ok 738886 AIS_OUTPUT_DIR empty_world))
       (joinpath AIS_OUTPUT_DIR (ais_filename 738886)) = Some [80, 65, 82]
   \<and> trace (snd (download_file net_ok 738886 AIS_OUTPUT_DIR empty_world))
       = [NetGet (ais_url 738886)]"
proof -
  have present: "exists_file jan1_world (joinpath AIS_OUTPUT_DIR (ais_filename 738886))"
    by (simp add: exists_file_def jan1_world_def jan1_path_def)
  have absent: "\<not> exists_file empty_world (joinpath AIS_OUTPUT_DIR (ais_filename 738886))"
    by (simp add: exists_file_def empty_world_def)
  have down: "transport_failure (net_down (ais_url 738886))"
    by (simp add: transport_failure_def net_down_def)
  have up: "\<not> transport_failure (net_ok (ais_url 738886))"
    by (simp add: transport_failure_def net_ok_def is_success_def)
  have body: "response_body (net_ok (ais_url 738886)) = [80, 65, 82]"
    by (simp add: response_body_def net_ok_def)
  note skip = download_file_true_iff_downloaded
    [where net = net_ok and file_date = 738886 and output_dir = AIS_OUTPUT_DIR
       and w = jan1_world and i = 2 and n_dates = 3 and c = no_counts]
  note fail = download_file_true_iff_downloaded
    [where net = net_down and file_date = 738886 and output_dir = AIS_OUTPUT_DIR
       and w = empty_world and i = 2 and n_dates = 3 and c = no_counts]
  note good = download_file_true_iff_downloaded
    [where net = net_ok and file_date = 738886 and output_dir = AIS_OUTPUT_DIR
       and w = empty_world]
  have s1: "fst (download_file net_ok 738886 AIS_OUTPUT_DIR jan1_world) = Inr False"
    using skip present by blast
  have s3: "files (snd (download_file net_ok 738886 AIS_OUTPUT_DIR jan1_world)) = files jan1_world"
    using skip s1 by blast
  have s0: "download_file net_ok 738886 AIS_OUTPUT_DIR (emit (Progress 2 3) jan1_world)
              = (Inr False, emit (Progress 2 3) jan1_world)"
    using present by (simp add: download_file_existing)
  have s2: "fst (fetch_unit net_ok 3 2 738886 (no_counts, jan1_world))
              = Inr (no_counts\<lparr>skipped := 1\<rparr>)"
  proof -
    have "fst (download_file net_ok 738886 AIS_OUTPUT_DIR (emit (Progress 2 3) jan1_world))
            = Inr False"
      by (simp only: s0 fst_conv)
    with skip have "fetch_unit net_ok 3 2 738886 (no_counts, jan1_world) =
          (if exists_file (snd (download_file net_ok 738886 AIS_OUTPUT_DIR (emit (Progress 2 3) jan1_world)))
                (joinpath AIS_OUTPUT_DIR (ais_filename 738886))
           then (Inr (no_counts\<lparr>skipped := skipped no_counts + 1\<rparr>),
                 snd (download_file net_ok 738886 AIS_OUTPUT_DIR (emit (Progress 2 3) jan1_world)))
           else (Inr (no_counts\<lparr>failed := failed no_counts + 1\<rparr>),
                 snd (download_file net_ok 738886 AIS_OUTPUT_DIR (emit (Progress 2 3) jan1_world))))"
      by blast
    then show ?thesis
      using present by (simp add: s0 no_counts_def)
  qed
  have f1: "fst (download_file net_down 738886 AIS_OUTPUT_DIR empty_world) = Inr False"
    using fail absent down by blast
  have f3: "files (snd (download_file net_down 738886 AIS_OUTPUT_DIR empty_world)) = files empty_world"
    using fail f1 by blast
  have f0: "fst (download_file net_down 738886 AIS_OUTPUT_DIR (emit (Progress 2 3) empty_world))
              = Inr False
            \<and> \<not> exists_file
                 (snd (download_file net_down 738886 AIS_OUTPUT_DIR (emit (Progress 2 3) empty_world)))
                 (joinpath AIS_OUTPUT_DIR (ais_filename 738886))"
    using download_file_failed [where net = net_down and file_date = 738886
        and output_dir = AIS_OUTPUT_DIR and w = "emit (Progress 2 3) empty_world"] absent down
    by simp
  have f2: "fst (fetch_unit net_down 3 2 738886 (no_counts, empty_world))
              = Inr (no_counts\<lparr>failed := 1\<rparr>)"
  proof -
    from fail f0 have "fetch_unit net_down 3 2 738886 (no_counts, empty_world) =
          (if exists_file (snd (download_file net_down 738886 AIS_OUTPUT_DIR (emit (Progress 2 3) empty_world)))
                (joinpath AIS_OUTPUT_DIR (ais_filename 738886))
           then (Inr (no_counts\<lparr>skipped := skipped no_counts + 1\<rparr>),
                 snd (download_file net_down 738886 AIS_OUTPUT_DIR (emit (Progress 2 3) empty_world)))
           else (Inr (no_counts\<lparr>failed := failed no_counts + 1\<rparr>),
                 snd (download_file net_down 738886 AIS_OUTPUT_DIR (emit (Progress 2 3) empty_world))))"
      by blast
    then show ?thesis
      using f0 by (simp add: no_counts_def)
  qed
  have g1: "fst (download_file net_ok 738886 AIS_OUTPUT_DIR empty_world) = Inr True"
    using good absent up by blast
  from good g1
  have "files (snd (download_file net_ok 738886 AIS_OUTPUT_DIR empty_world))
          = (files empty_world)(joinpath AIS_OUTPUT_DIR (ais_filename 738886)
                \<mapsto> response_body (net_ok (ais_url 738886)))"
    and g3: "trace (snd (download_file net_ok 738886 AIS_OUTPUT_DIR empty_world))
               = trace empty_world @ [NetGet (ais_url 738886)]"
    by blast+
  then have g2: "files (snd (download_file net_ok 738886 AIS_OUTPUT_DIR empty_world))
                   (joinpath AIS_OUTPUT_DIR (ais_filename 738886)) = Some [80, 65, 82]"
    by (simp add: body)
  from g3 have g4: "trace (snd (download_file net_ok 738886 AIS_OUTPUT_DIR empty_world))
                      = [NetGet (ais_url 738886)]"
    by (simp add: empty_world_def)
  from present s1 s3 s2 absent down f1 f3 f2 up g1 g2 g4 show ?thesis
    by blast
qed

subsection \<open>The fetch loop\<close>

lemma snd_fetch_unit:
  "snd (fetch_unit net n_dates i file_date (c, w)) =
     (if fst (download_file net file_date AIS_OUTPUT_DIR (emit (Progress i n_dates) w)) = Inr True
      then emit Sleep (snd (download_file net file_date AIS_OUTPUT_DIR (emit (Progress i n_dates) w)))
      else snd (download_file net file_date AIS_OUTPUT_DIR (emit (Progress i n_dates) w)))"
  using fst_download_file [of net file_date AIS_OUTPUT_DIR "emit (Progress i n_dates) w"]
  by (cases "download_file net file_date AIS_OUTPUT_DIR (emit (Progress i n_dates) w)")
     (auto simp: fetch_unit_def Let_def)

text \<open>
  Claim C7, as the code has it. One iteration of the fetch loop leaves one of three traces:
  a skipped unit adds only the progress line; a failed unit adds the progress line and the
  request, and no pause; a downloaded unit adds the progress line, the request and the
  pause. So the pause is observed after a downloaded unit and after no other.
\<close>

theorem fetch_unit_pauses_only_after_download:
  "(exists_file w (joinpath AIS_OUTPUT_DIR (ais_filename file_date)) \<longrightarrow>
      trace (snd (fetch_unit net n_dates i file_date (c, w))) = trace w @ [Progress i n_dates])
   \<and> (\<not> exists_file w (joinpath AIS_OUTPUT_DIR (ais_filename file_date))
        \<and> transport_failure (net (ais_url file_date)) \<longrightarrow>
      trace (snd (fetch_unit net n_dates i file_date (c, w)))
        = trace w @ [Progress i n_dates, NetGet (ais_url file_date)])
   \<and> (\<not> exists_file w (joinpath AIS_OUTPUT_DIR (ais_filename file_date))
        \<and> \<not> transport_failure (net (ais_url file_date)) \<longrightarrow>
      trace (snd (fetch_unit net n_dates i file_date (c, w)))
        = trace w @ [Progress i n_dates, NetGet (ais_url file_date), Sleep])"
proof (intro conjI impI)
  let ?w = "emit (Progress i n_dates) w"
  note unit = snd_fetch_unit [of net n_dates i file_date c w]
  {
    assume "exists_file w (joinpath AIS_OUTPUT_DIR (ais_filename file_date))"
    then show "trace (snd (fetch_unit net n_dates i file_date (c, w))) = trace w @ [Progress i n_dates]"
      unfolding unit by (simp add: download_file_existing) (simp add: emit_def)
  next
    assume a: "\<not> exists_file w (joinpath AIS_OUTPUT_DIR (ais_filename file_date))
               \<and> transport_failure (net (ais_url file_date))"
    then have "\<not> exists_file ?w (joinpath AIS_OUTPUT_DIR (ais_filename file_date))" by simp
    from download_file_failed [OF this, of net] a
    show "trace (snd (fetch_unit net n_dates i file_date (c, w)))
            = trace w @ [Progress i n_dates, NetGet (ais_url file_date)]"
      unfolding unit by (simp add: emit_def)
  next
    assume a: "\<not> exists_file w (joinpath AIS_OUTPUT_DIR (ais_filename file_date))
               \<and> \<not> transport_failure (net (ais_url file_date))"
    then have "\<not> exists_file ?w (joinpath AIS_OUTPUT_DIR (ais_filename file_date))" by simp
    from download_file_success(1) [OF this, of net] a
    show "trace (snd (fetch_unit net n_dates i file_date (c, w)))
            = trace w @ [Progress i n_dates, NetGet (ais_url file_date), Sleep]"
      unfolding unit by (simp add: fst_download_file) (simp add: emit_def)
  }
qed

theorem fetch_unit_pauses_only_after_download_witness:
  "exists_file jan1_world (joinpath AIS_OUTPUT_DIR (ais_filename 738886))
   \<and> trace (snd (fetch_unit net_ok 3 2 738886 (no_counts, jan1_world))) = [Progress 2 3]
   \<and> \<not> exists_file empty_world (joinpath AIS_OUTPUT_DIR (ais_filename 738886))
   \<and> transport_failure (net_down (ais_url 738886))
   \<and> trace (snd (fetch_unit net_down 3 2 738886 (no_counts, empty_world)))
       = [Progress 2 3, NetGet (ais_url 738886)]
   \<and> \<not> transport_failure (net_ok (ais_url 738886))
   \<and> trace (snd (fetch_unit net_ok 3 2 738886 (no_counts, empty_world)))
       = [Progress 2 3, NetGet (ais_url 738886), Sleep]"
proof -
  have present: "exists_file jan1_world (joinpath AIS_OUTPUT_DIR (ais_filename 738886))"
    by (simp add: exists_file_def jan1_world_def jan1_path_def)
  have absent: "\<not> exists_file empty_world (joinpath AIS_OUTPUT_DIR (ais_filename 738886))"
    by (simp add: exists_file_def empty_world_def)
  have down: "transport_failure (net_down (ais_url 738886))"
    by (simp add: transport_failure_def net_down_def)
  have up: "\<not> transport_failure (net_ok (ais_url 738886))"
    by (simp add: transport_failure_def net_ok_def is_success_def)
  have t1: "trace (snd (fetch_unit net_ok 3 2 738886 (no_counts, jan1_world))) = [Progress 2 3]"
    using fetch_unit_pauses_only_after_download
      [where net = net_ok and file_date = 738886 and w = jan1_world and i = 2 and n_dates = 3
         and c = no_counts] present
    by (simp add: jan1_world_def)
  have t2: "trace (snd (fetch_unit net_down 3 2 738886 (no_counts, empty_world)))
              = [Progress 2 3, NetGet (ais_url 738886)]"
    using fetch_unit_pauses_only_after_download
      [where net = net_down and file_date = 738886 and w = empty_world and i = 2 and n_dates = 3
         and c = no_counts] absent down
    by (simp add: empty_world_def)
  have t3: "trace (snd (fetch_unit net_ok 3 2 738886 (no_counts, empty_world)))
              = [Progress 2 3, NetGet (ais_url 738886), Sleep]"
    using fetch_unit_pauses_only_after_download
      [where net = net_ok and file_date = 738886 and w = empty_world and i = 2 and n_dates = 3
         and c = no_counts] absent up
    by (simp add: empty_world_def)
  from present t1 absent down t2 up t3 show ?thesis
    by blast
qed

text \<open>
  Claim C7, as stated, fails: with the service unreachable, the units of 2024-01-01 and
  2024-01-02 are both attempted and both fail, and the two requests follow each other
  with no pause between them.
\<close>

theorem fetch_loop_no_pause_after_failed_units:
  "fetch_loop net_down 2 1 [738886, 738887] (no_counts, empty_world)
     = (Inr (no_counts\<lparr>failed := 2\<rparr>),
        empty_world\<lparr>trace :=
          [Progress 1 2,
           NetGet ''https://marinecadastre.gov/downloads/ais2024/ais-2024-01-01.parquet'',
           Progress 2 2,
           NetGet ''https://marinecadastre.gov/downloads/ais2024/ais-2024-01-02.parquet'']\<rparr>)"
  by (simp add: fetch_unit_def download_file_def stream_to_file_def net_down_def no_counts_def
      empty_world_def exists_file_def emit_def ais_eval)

text \<open>
  Over the whole loop: the loop never raises, and the number of pauses it adds to the trace
  is the number of units it counts as downloaded.
\<close>

lemma trace_download_file:
  "trace (snd (download_file net file_date output_dir w)) =
     (if exists_file w (joinpath output_dir (ais_filename file_date)) then trace w
      else trace w @ [NetGet (ais_url file_date)])"
proof (cases "exists_file w (joinpath output_dir (ais_filename file_date))")
  case True
  then show ?thesis by (simp add: download_file_existing)
next
  case False
  then show ?thesis
    using download_file_failed [OF False, of net] download_file_success(1) [OF False, of net]
    by (cases "transport_failure (net (ais_url file_date))") simp_all
qed

lemma fetch_unit_pauses:
  "\<exists>c'. fst (fetch_unit net n_dates i file_date (c, w)) = Inr c'
        \<and> count_list (trace (snd (fetch_unit net n_dates i file_date (c, w)))) Sleep + downloaded c
            = count_list (trace w) Sleep + downloaded c'"
proof -
  let ?r = "download_file net file_date AIS_OUTPUT_DIR (emit (Progress i n_dates) w)"
  have t: "count_list (trace (snd ?r)) Sleep = count_list (trace w) Sleep"
    by (simp add: trace_download_file emit_def)
  obtain b w' where r: "?r = (Inr b, w')"
    using fst_download_file [of net file_date AIS_OUTPUT_DIR "emit (Progress i n_dates) w"]
    by (cases ?r) auto
  with t show ?thesis
    by (simp add: fetch_unit_def Let_def emit_def)
qed

lemma fetch_loop_pauses:
  "\<exists>c'. fst (fetch_loop net n_dates i dates (c, w)) = Inr c'
        \<and> count_list (trace (snd (fetch_loop net n_dates i dates (c, w)))) Sleep + downloaded c
            = count_list (trace w) Sleep + downloaded c'"
proof (induction dates arbitrary: i c w)
  case Nil
  then show ?case by simp
next
  case (Cons file_date dates)
  obtain c1 where u: "fst (fetch_unit net n_dates i file_date (c, w)) = Inr c1"
    and n1: "count_list (trace (snd (fetch_unit net n_dates i file_date (c, w)))) Sleep + downloaded c
               = count_list (trace w) Sleep + downloaded c1"
    using fetch_unit_pauses [of net n_dates i file_date c w] by blast
  obtain w1 where r: "fetch_unit net n_dates i file_date (c, w) = (Inr c1, w1)"
    using u by (cases "fetch_unit net n_dates i file_date (c, w)") simp
  obtain c2 where l: "fst (fetch_loop net n_dates (i + 1) dates (c1, w1)) = Inr c2"
    and n2: "count_list (trace (snd (fetch_loop net n_dates (i + 1) dates (c1, w1)))) Sleep + downloaded c1
               = count_list (trace w1) Sleep + downloaded c2"
    using Cons.IH [of "i + 1" c1 w1] by blast
  from n1 r have "count_list (trace w1) Sleep + downloaded c = count_list (trace w) Sleep + downloaded c1"
    by simp
  with l n2 r show ?case
    by simp
qed

subsection \<open>\<open>generate_dates\<close>\<close>

lemma generate_dates_loop_upto:
  "0 \<le> current \<Longrightarrow> end_d < MAXORDINAL \<Longrightarrow>
   generate_dates_loop dates current end_d = Inr (dates @ [current..end_d])"
proof (induction dates current end_d rule: generate_dates_loop.induct)
  case (1 dates current end_d)
  show ?case
  proof (cases "current \<le> end_d")
    case False
    then show ?thesis
      by (simp add: generate_dates_loop.simps [of dates current end_d])
  next
    case True
    with "1.prems" have step: "add_days current 1 = Inr (current + 1)"
      by (simp add: add_days_def)
    from "1.IH" [OF True step] "1.prems"
    have "generate_dates_loop (dates @ [current]) (current + 1) end_d
            = Inr ((dates @ [current]) @ [current + 1..end_d])"
      by simp
    with True step show ?thesis
      by (simp add: generate_dates_loop.simps [of dates current end_d] upto_rec1 [of current end_d])
  qed
qed

text \<open>
  For an interval that ends before \<open>date.max\<close> the list is the inclusive run of days:
  \<open>(end - start).days + 1\<close> of them, strictly ascending, the element at index \<open>i\<close> being
  \<open>start\<close> plus \<open>i\<close> days.
\<close>

lemma generate_dates_before_max:
  assumes "valid_date start" and "start \<le> end_d" and "end_d < MAXORDINAL"
  shows "generate_dates start end_d = Inr [start..end_d]"
    and "length [start..end_d] = nat (days_between start end_d + 1)"
    and "sorted_wrt (<) [start..end_d]"
    and "\<forall>i < length [start..end_d]. [start..end_d] ! i = start + int i"
  using assms
  by (simp_all add: generate_dates_def generate_dates_loop_upto valid_date_def days_between_def
      sorted_wrt_upto)

text \<open>
  Claim C2 at the interval from 9999-12-30 to 9999-12-31 (\<open>date.max\<close>): both are dates,
  the start is not after the end, and \<open>generate_dates\<close> raises \<open>OverflowError\<close> instead of
  returning the two dates, because the loop adds one day to \<open>date.max\<close> after appending it.
\<close>

theorem generate_dates_raises_at_date_max:
  "valid_date 3652058 \<and> valid_date 3652059 \<and> (3652058 :: date) \<le> 3652059
   \<and> isoformat 3652058 = ''9999-12-30'' \<and> isoformat 3652059 = ''9999-12-31''
   \<and> generate_dates 3652058 3652059 = Inl OverflowError"
  by (simp add: valid_date_def MAXORDINAL_def generate_dates_def generate_dates_loop.simps
      add_days_def isoformat_def ord2ymd_def pad2_def pad4_def digit_def DAYS_BEFORE_MONTH_def
      DAYS_IN_MONTH_def Let_def)

subsection \<open>\<open>filter_us_coast\<close>\<close>

lemma filter_mask: "map fst (filter snd (zip xs (map P xs))) = filter P xs"
  by (induction xs) simp_all

lemma in_mask_spec: "in_mask US_COAST_BBOX = spec_bbox_within_region"
  by (rule ext) (simp add: in_mask_def US_COAST_BBOX_def spec_bbox_within_region_def)

lemma spec_bbox_finite:
  "spec_bbox_within_region \<lparr>site = s, minx = Fin x0, miny = Fin y0, maxx = Fin x1, maxy = Fin y1\<rparr>
     \<longleftrightarrow> x0 \<ge> -130 \<and> x1 \<le> -65 \<and> y0 \<ge> 24 \<and> y1 \<le> 49"
  by (simp add: spec_bbox_within_region_def fl_ge_def)

text \<open>
  Claim C5. The features of the result are exactly the features of the frame (reprojected
  first when the frame has a reference other than EPSG:4326) whose bounds satisfy
  \<open>minx >= -130\<close>, \<open>maxx <= -65\<close>, \<open>miny >= 24\<close> and \<open>maxy <= 49\<close>, in their order and
  unchanged: a feature is kept whole or dropped whole.
\<close>

theorem filter_us_coast_keeps_bbox_inside:
  "features (filter_us_coast reproj gdf) =
     filter spec_bbox_within_region
       (case gdf_crs gdf of
          None \<Rightarrow> features gdf
        | Some c \<Rightarrow> if to_epsg c \<noteq> Some 4326 then map reproj (features gdf) else features gdf)"
  by (simp add: filter_us_coast_def Let_def filter_mask in_mask_spec to_crs_def
      split: option.splits)

text \<open>
  The example of the specification: bounds \<open>(-70, 30, -68, 32)\<close> are retained, bounds
  \<open>(-66, 30, -64, 32)\<close> are excluded, and so is a feature without geometry.
\<close>

theorem filter_us_coast_keeps_bbox_inside_witness:
  "features (filter_us_coast toy_reproject sample_gdf) = [feature_inside]
   \<and> spec_bbox_within_region feature_inside
   \<and> \<not> spec_bbox_within_region feature_straddling
   \<and> \<not> spec_bbox_within_region feature_empty"
proof -
  have a: "spec_bbox_within_region feature_inside"
    by (simp add: spec_bbox_within_region_def feature_inside_def fl_ge_def)
  have b: "\<not> spec_bbox_within_region feature_straddling"
    by (simp add: spec_bbox_within_region_def feature_straddling_def fl_ge_def)
  have c: "\<not> spec_bbox_within_region feature_empty"
    by (simp add: spec_bbox_within_region_def feature_empty_def fl_ge_def)
  from filter_us_coast_keeps_bbox_inside [of toy_reproject sample_gdf] a b c
  have "features (filter_us_coast toy_reproject sample_gdf) = [feature_inside]"
    by (simp add: sample_gdf_def)
  with a b c show ?thesis by blast
qed

subsection \<open>\<open>download_mpa_zip\<close> and \<open>download_mpa_data\<close>\<close>

lemma mpa_paths_differ: "joinpath MPA_OUTPUT_DIR ''mpa_inventory.zip'' \<noteq> MPA_OUTPUT_FILE"
  by (simp add: MPA_OUTPUT_FILE_def joinpath_def)

lemma download_mpa_zip_existing:
  "exists_file w (joinpath output_path ''mpa_inventory.zip'') \<Longrightarrow>
   download_mpa_zip net output_path w = (Inr (joinpath output_path ''mpa_inventory.zip''), w)"
  by (simp add: download_mpa_zip_def Let_def)

lemma download_mpa_zip_other:
  assumes "q \<noteq> joinpath output_path ''mpa_inventory.zip''"
  shows "files (snd (download_mpa_zip net output_path w)) q = files w q"
proof (cases "exists_file w (joinpath output_path ''mpa_inventory.zip'')")
  case True
  then show ?thesis by (simp add: download_mpa_zip_existing)
next
  case False
  with assms show ?thesis
    by (cases "net MPA_URL")
       (simp_all add: download_mpa_zip_def stream_to_file_def Let_def unlink_def emit_def
          files_write_chunks_other open_wb_def)
qed

lemma download_mpa_zip_returns_path:
  "download_mpa_zip net output_path w = (Inr zp, w1) \<Longrightarrow> zp = joinpath output_path ''mpa_inventory.zip''"
  by (cases "net MPA_URL")
     (auto simp: download_mpa_zip_def stream_to_file_def Let_def split: if_splits)

text \<open>
  Claim C8. The snapshot is absent (otherwise the whole operation is skipped), the download
  step yields the zip file, and the extracted tree has no path matching \<open>*.gdb\<close>: then
  \<open>download_mpa_data\<close> raises \<open>FileNotFoundError\<close> and the snapshot file does not exist
  afterwards.
\<close>

theorem download_mpa_data_no_gdb_no_snapshot:
  assumes "\<not> exists_file w MPA_OUTPUT_FILE"
    and "download_mpa_zip net MPA_OUTPUT_DIR w = (Inr zip_path, w1)"
    and "files w1 zip_path = Some archive"
    and "unzip L archive = Some tree"
    and "filter (\<lambda>p. endswith p ''.gdb'') tree = []"
  shows "fst (download_mpa_data L net w)
           = Inl (FileNotFoundError ''No .gdb directory found in downloaded zip'')
       \<and> \<not> exists_file (snd (download_mpa_data L net w)) MPA_OUTPUT_FILE"
proof -
  have ex: "extract_and_read_geodatabase L zip_path w1
              = Inl (FileNotFoundError ''No .gdb directory found in downloaded zip'')"
    using assms(3,4,5) by (simp add: extract_and_read_geodatabase_def)
  have r: "download_mpa_data L net w
             = (Inl (FileNotFoundError ''No .gdb directory found in downloaded zip''), w1)"
    using assms(1,2) ex by (simp add: download_mpa_data_def)
  have "files w1 MPA_OUTPUT_FILE = files w MPA_OUTPUT_FILE"
    using download_mpa_zip_other [of MPA_OUTPUT_FILE MPA_OUTPUT_DIR net w] mpa_paths_differ assms(2)
    by simp
  with assms(1) have "\<not> exists_file w1 MPA_OUTPUT_FILE"
    by (simp add: exists_file_def)
  with r show ?thesis by simp
qed


text \<open>A fresh download of an archive that holds only a directory of documents.\<close>

theorem download_mpa_data_no_gdb_no_snapshot_witness:
  "\<not> exists_file empty_world MPA_OUTPUT_FILE
   \<and> download_mpa_zip net_archive_without_gdb MPA_OUTPUT_DIR empty_world
       = (Inr mpa_zip_path,
          \<lparr>files = [mpa_zip_path \<mapsto> [80, 75, 1]], trace = [NetGet MPA_URL]\<rparr>)
   \<and> unzip toy_lib [80, 75, 1] = Some [''docs'', ''docs/readme.txt'']
   \<and> filter (\<lambda>p. endswith p ''.gdb'') [''docs'', ''docs/readme.txt''] = []
   \<and> fst (download_mpa_data toy_lib net_archive_without_gdb empty_world)
       = Inl (FileNotFoundError ''No .gdb directory found in downloaded zip'')
   \<and> \<not> exists_file (snd (download_mpa_data toy_lib net_archive_without_gdb empty_world))
         MPA_OUTPUT_FILE"
proof -
  have h1: "\<not> exists_file empty_world MPA_OUTPUT_FILE"
    by (simp add: exists_file_def empty_world_def)
  have h2: "download_mpa_zip net_archive_without_gdb MPA_OUTPUT_DIR empty_world
              = (Inr mpa_zip_path,
                 \<lparr>files = [mpa_zip_path \<mapsto> [80, 75, 1]], trace = [NetGet MPA_URL]\<rparr>)"
    by (simp add: download_mpa_zip_def stream_to_file_def net_archive_without_gdb_def
        is_success_def Let_def exists_file_def empty_world_def emit_def open_wb_def write_chunk_def
        mpa_zip_path_def)
  have h3: "files \<lparr>files = [mpa_zip_path \<mapsto> [80, 75, 1]], trace = [NetGet MPA_URL]\<rparr> mpa_zip_path
              = Some [80, 75, 1]"
    by simp
  have h4: "unzip toy_lib [80, 75, 1] = Some [''docs'', ''docs/readme.txt'']"
    by (simp add: toy_lib_def toy_unzip_def)
  have h5: "filter (\<lambda>p. endswith p ''.gdb'') [''docs'', ''docs/readme.txt''] = []"
    by (simp add: endswith_def)
  from download_mpa_data_no_gdb_no_snapshot [OF h1 h2 h3 h4 h5] h1 h2 h4 h5 show ?thesis
    by blast
qed

lemma save_keeps_zip:
  "exists_file w (joinpath MPA_OUTPUT_DIR ''mpa_inventory.zip'') \<Longrightarrow>
   exists_file (save_to_parquet L gdf MPA_OUTPUT_FILE w) (joinpath MPA_OUTPUT_DIR ''mpa_inventory.zip'')"
  using mpa_paths_differ by (simp add: save_to_parquet_def exists_file_def)

text \<open>
  Claim C10. When the zip file exists, whatever its content, \<open>download_mpa_zip\<close> returns
  its path and leaves the world as it is (no request is made). With the snapshot absent,
  \<open>download_mpa_data\<close> then is what extraction of that existing file gives: the remote
  service plays no part in the result.
\<close>

theorem download_mpa_zip_trusts_existing_zip:
  assumes "files w (joinpath output_path ''mpa_inventory.zip'') = Some content"
  shows "download_mpa_zip net output_path w = (Inr (joinpath output_path ''mpa_inventory.zip''), w)
       \<and> (output_path = MPA_OUTPUT_DIR \<and> \<not> exists_file w MPA_OUTPUT_FILE \<longrightarrow>
            download_mpa_data L net w =
              (case extract_and_read_geodatabase L (joinpath MPA_OUTPUT_DIR ''mpa_inventory.zip'') w of
                 Inl e \<Rightarrow> (Inl e, w)
               | Inr gdf \<Rightarrow>
                   (Inr (),
                    unlink (joinpath MPA_OUTPUT_DIR ''mpa_inventory.zip'')
                      (save_to_parquet L (filter_us_coast (reproject L) gdf) MPA_OUTPUT_FILE w))))"
proof -
  have ex: "exists_file w (joinpath output_path ''mpa_inventory.zip'')"
    using assms by (simp add: exists_file_def)
  then have z: "download_mpa_zip net output_path w = (Inr (joinpath output_path ''mpa_inventory.zip''), w)"
    by (rule download_mpa_zip_existing)
  have "download_mpa_data L net w =
              (case extract_and_read_geodatabase L (joinpath MPA_OUTPUT_DIR ''mpa_inventory.zip'') w of
                 Inl e \<Rightarrow> (Inl e, w)
               | Inr gdf \<Rightarrow>
                   (Inr (),
                    unlink (joinpath MPA_OUTPUT_DIR ''mpa_inventory.zip'')
                      (save_to_parquet L (filter_us_coast (reproject L) gdf) MPA_OUTPUT_FILE w)))"
    if "output_path = MPA_OUTPUT_DIR" and "\<not> exists_file w MPA_OUTPUT_FILE"
    using that z ex
    by (simp add: download_mpa_data_def Let_def save_keeps_zip split: sum.splits)
  with z show ?thesis by blast
qed

text \<open>
  A zip file cut off after two bytes is on disk and the service would deliver a good
  archive: no request is made and extraction of the truncated file fails.
\<close>

theorem download_mpa_zip_trusts_existing_zip_witness:
  "files truncated_zip_world (joinpath MPA_OUTPUT_DIR ''mpa_inventory.zip'') = Some [80, 75]
   \<and> \<not> exists_file truncated_zip_world MPA_OUTPUT_FILE
   \<and> download_mpa_zip net_archive_with_gdb MPA_OUTPUT_DIR truncated_zip_world
       = (Inr (joinpath MPA_OUTPUT_DIR ''mpa_inventory.zip''), truncated_zip_world)
   \<and> download_mpa_data toy_lib net_archive_with_gdb truncated_zip_world
       = (Inl BadZipFile, truncated_zip_world)
   \<and> trace truncated_zip_world = []"
proof -
  have h1: "files truncated_zip_world (joinpath MPA_OUTPUT_DIR ''mpa_inventory.zip'') = Some [80, 75]"
    by (simp add: truncated_zip_world_def mpa_zip_path_def)
  have h2: "\<not> exists_file truncated_zip_world MPA_OUTPUT_FILE"
    using mpa_paths_differ by (simp add: truncated_zip_world_def mpa_zip_path_def exists_file_def)
  have x: "extract_and_read_geodatabase toy_lib (joinpath MPA_OUTPUT_DIR ''mpa_inventory.zip'')
             truncated_zip_world = Inl BadZipFile"
    by (simp add: extract_and_read_geodatabase_def h1 toy_lib_def toy_unzip_def)
  note t = download_mpa_zip_trusts_existing_zip
    [where w = truncated_zip_world and output_path = MPA_OUTPUT_DIR and content = "[80, 75]"
       and net = net_archive_with_gdb and L = toy_lib, OF h1]
  from t have a: "download_mpa_zip net_archive_with_gdb MPA_OUTPUT_DIR truncated_zip_world
       = (Inr (joinpath MPA_OUTPUT_DIR ''mpa_inventory.zip''), truncated_zip_world)"
    by blast
  from t h2 have "download_mpa_data toy_lib net_archive_with_gdb truncated_zip_world =
              (case extract_and_read_geodatabase toy_lib (joinpath MPA_OUTPUT_DIR ''mpa_inventory.zip'')
                      truncated_zip_world of
                 Inl e \<Rightarrow> (Inl e, truncated_zip_world)
               | Inr gdf \<Rightarrow>
                   (Inr (),
                    unlink (joinpath MPA_OUTPUT_DIR ''mpa_inventory.zip'')
                      (save_to_parquet toy_lib (filter_us_coast (reproject toy_lib) gdf)
                         MPA_OUTPUT_FILE truncated_zip_world)))"
    by blast
  then have b: "download_mpa_data toy_lib net_archive_with_gdb truncated_zip_world
                  = (Inl BadZipFile, truncated_zip_world)"
    by (simp add: x)
  have c: "trace truncated_zip_world = []"
    by (simp add: truncated_zip_world_def)
  from h1 h2 a b c show ?thesis by blast
qed

subsection \<open>\<open>load_all_data\<close>: loaders touch only their own relation\<close>

lemma untouched_refl [simp]: "untouched t d d"
  by (simp add: untouched_def)

lemma untouched_trans: "untouched t d d' \<Longrightarrow> untouched t d' d'' \<Longrightarrow> untouched t d d''"
  by (simp add: untouched_def)

lemma untouched_logged:
  "\<not> loader_activity t e \<Longrightarrow> untouched t d (logged e d)"
  by (simp add: untouched_def logged_def)

lemma untouched_insert_rows:
  "t \<noteq> t' \<Longrightarrow> untouched t d (insert_rows t' rs d)"
  by (simp add: untouched_def insert_rows_def logged_def)

lemma count_rows_untouched: "untouched t d d' \<Longrightarrow> count_rows d' t = count_rows d t"
  by (simp add: untouched_def count_rows_def)

lemma load_mpa_data_untouched:
  "t \<noteq> marine_protected_areas \<Longrightarrow> untouched t d (snd (load_mpa_data F d))"
  by (simp add: load_mpa_data_def Let_def untouched_def insert_rows_def logged_def
      split: option.splits parquet.splits)

lemma load_cetacean_data_untouched:
  "t \<noteq> cetacean_sightings \<Longrightarrow> untouched t d (snd (load_cetacean_data F d))"
  by (simp add: load_cetacean_data_def Let_def untouched_def insert_rows_def logged_def
      split: option.splits parquet.splits)

lemma create_staging_untouched:
  "t \<noteq> ais_positions \<Longrightarrow> create_staging d = Inr d' \<Longrightarrow> untouched t d d'"
  by (auto simp: create_staging_def untouched_def logged_def split: option.splits)

lemma copy_expert_untouched:
  "t \<noteq> ais_positions \<Longrightarrow> copy_expert buffer d = Inr d' \<Longrightarrow> untouched t d d'"
  by (auto simp: copy_expert_def untouched_def logged_def split: option.splits)

lemma insert_from_staging_untouched:
  "t \<noteq> ais_positions \<Longrightarrow> insert_from_staging d = Inr d' \<Longrightarrow> untouched t d d'"
  by (auto simp: insert_from_staging_def untouched_def insert_rows_def logged_def
      split: option.splits)

lemma load_ais_files_untouched:
  "t \<noteq> ais_positions \<Longrightarrow>
   untouched t d (snd (load_ais_files n_files file_idx fs (total_loaded, d)))"
proof (induction fs arbitrary: file_idx total_loaded d)
  case Nil
  then show ?case by simp
next
  case (Cons entry fs)
  obtain name content where entry: "entry = (name, content)"
    by (cases entry)
  let ?d0 = "logged (FileRead ais_positions name) d"
  have u0: "untouched t d ?d0"
    using Cons.prems by (simp add: untouched_logged)
  show ?case
  proof (cases content)
    case Corrupt
    with entry u0 show ?thesis by simp
  next
    case Malformed
    with entry u0 show ?thesis by simp
  next
    case (Parquet flat)
    show ?thesis
    proof (cases "create_staging ?d0")
      case (Inl e)
      with entry Parquet u0 show ?thesis by (simp add: Let_def)
    next
      case created: (Inr d1)
      note u1 = untouched_trans [OF u0 create_staging_untouched [OF Cons.prems created]]
      show ?thesis
      proof (cases "copy_expert flat d1")
        case (Inl e)
        with entry Parquet created u1 show ?thesis by (simp add: Let_def)
      next
        case copied: (Inr d2)
        note u2 = untouched_trans [OF u1 copy_expert_untouched [OF Cons.prems copied]]
        show ?thesis
        proof (cases "insert_from_staging d2")
          case (Inl e)
          with entry Parquet created copied u2 show ?thesis by (simp add: Let_def)
        next
          case inserted: (Inr d3)
          note u3 = untouched_trans [OF u2 insert_from_staging_untouched [OF Cons.prems inserted]]
          let ?d5 = "logged (FileLoaded file_idx n_files name (length flat) (total_loaded + length flat))
                       (drop_staging d3)"
          have "untouched t d3 ?d5"
            using Cons.prems by (simp add: untouched_def logged_def drop_staging_def)
          note u5 = untouched_trans [OF u3 this]
          have step: "load_ais_files n_files file_idx (entry # fs) (total_loaded, d)
                        = load_ais_files n_files (file_idx + 1) fs (total_loaded + length flat, ?d5)"
            using entry Parquet created copied inserted by (simp add: Let_def)
          from untouched_trans [OF u5 Cons.IH [OF Cons.prems]] show ?thesis
            by (simp only: step)
        qed
      qed
    qed
  qed
qed

lemma load_ais_data_untouched:
  assumes "t \<noteq> ais_positions"
  shows "untouched t d (snd (load_ais_data F d))"
proof -
  let ?d = "logged (LoaderCalled ais_positions) d"
  let ?fs = "sort_key fst (glob_parquet (ais_dir F))"
  have a: "untouched t d ?d"
    using assms by (simp add: untouched_logged)
  show ?thesis
  proof (cases "?fs = []")
    case True
    then have "snd (load_ais_data F d) = logged (FileMissing ais_positions) ?d"
      by (simp add: load_ais_data_def Let_def)
    with a assms show ?thesis
      by (simp add: untouched_def logged_def)
  next
    case False
    obtain r d1 where run: "load_ais_files (length ?fs) 1 ?fs (0, ?d) = (r, d1)"
      by (cases "load_ais_files (length ?fs) 1 ?fs (0, ?d)")
    have b: "untouched t ?d d1"
      using load_ais_files_untouched [OF assms, of ?d "length ?fs" 1 ?fs 0] run by simp
    have "untouched t d1 (snd (load_ais_data F d))"
      using False run assms
      by (cases r) (simp_all add: load_ais_data_def Let_def untouched_def logged_def)
    with untouched_trans [OF a b] show ?thesis
      by (rule untouched_trans)
  qed
qed

lemma run_loader_untouched:
  "t \<noteq> t' \<Longrightarrow> untouched t d (snd (run_loader F t' d))"
  by (cases t')
     (simp_all add: run_loader_def load_mpa_data_untouched load_cetacean_data_untouched
        load_ais_data_untouched)

lemma load_tables_untouched:
  "0 < count_rows d t \<Longrightarrow> untouched t d (snd (load_tables F ts d))"
proof (induction ts arbitrary: d)
  case Nil
  then show ?case by simp
next
  case (Cons t' ts)
  show ?case
  proof (cases "0 < count_rows d t'")
    case True
    let ?d = "logged (Skipped t' (count_rows d t')) d"
    have a: "untouched t d ?d"
      by (simp add: untouched_logged)
    with Cons.prems have "0 < count_rows ?d t"
      by (simp add: count_rows_untouched)
    from untouched_trans [OF a Cons.IH [OF this]] True show ?thesis
      by (simp add: Let_def)
  next
    case False
    with Cons.prems have ne: "t \<noteq> t'"
      by auto
    obtain r d1 where run: "run_loader F t' d = (r, d1)"
      by (cases "run_loader F t' d")
    have a: "untouched t d d1"
      using run_loader_untouched [OF ne, of d F] run by simp
    show ?thesis
    proof (cases r)
      case (Inl e)
      with False run a show ?thesis by (simp add: Let_def)
    next
      case (Inr v)
      from a Cons.prems have "0 < count_rows d1 t"
        by (simp add: count_rows_untouched)
      from untouched_trans [OF a Cons.IH [OF this]] False run Inr show ?thesis
        by (simp add: Let_def)
    qed
  qed
qed

lemma final_counts_untouched: "untouched t d (final_counts ts d)"
proof (induction ts arbitrary: d)
  case Nil
  then show ?case by simp
next
  case (Cons t' ts)
  have "untouched t d (logged (FinalCount t' (count_rows d t')) d)"
    by (simp add: untouched_logged)
  from untouched_trans [OF this Cons.IH] show ?case
    by simp
qed

lemma load_all_data_untouched:
  assumes "0 < count_rows d t"
  shows "untouched t d (snd (load_all_data F d))"
proof -
  let ?ts = "[marine_protected_areas, cetacean_sightings, ais_positions]"
  obtain r d1 where run: "load_tables F ?ts d = (r, d1)"
    by (cases "load_tables F ?ts d")
  have a: "untouched t d d1"
    using load_tables_untouched [OF assms, of F ?ts] run by simp
  have b: "untouched t d1 (snd (load_all_data F d))"
  proof (cases r)
    case (Inl e)
    with run show ?thesis
      by (simp add: load_all_data_def untouched_logged)
  next
    case (Inr u)
    let ?d2 = "final_counts [ais_positions, cetacean_sightings, marine_protected_areas] d1"
    have "untouched t d1 ?d2" by (rule final_counts_untouched)
    moreover have "untouched t ?d2 (logged ConnectionClosed ?d2)"
      by (simp add: untouched_logged)
    ultimately have "untouched t d1 (logged ConnectionClosed ?d2)"
      by (rule untouched_trans)
    then show ?thesis
      using run Inr by (simp add: load_all_data_def)
  qed
  from a b show ?thesis by (rule untouched_trans)
qed

lemma load_tables_all_loaded:
  "\<forall>t \<in> set ts. 0 < count_rows d t \<Longrightarrow>
   load_tables F ts d = (Inr (), d\<lparr>dblog := dblog d @ map (\<lambda>t. Skipped t (count_rows d t)) ts\<rparr>)"
proof (induction ts arbitrary: d)
  case Nil
  then show ?case by simp
next
  case (Cons t' ts)
  let ?d = "logged (Skipped t' (count_rows d t')) d"
  have same: "count_rows ?d t = count_rows d t" for t
    by (simp add: count_rows_def logged_def)
  with Cons.prems have "\<forall>t \<in> set ts. 0 < count_rows ?d t"
    by simp
  from Cons.IH [OF this] Cons.prems show ?case
    by (simp add: Let_def same) (simp add: logged_def)
qed

lemma final_counts_rows:
  "rows_of (final_counts ts d) = rows_of d \<and> staging (final_counts ts d) = staging d"
  by (induction ts arbitrary: d) (simp_all add: logged_def)

text \<open>
  Claim C4. A relation that holds a row when \<open>load_all_data\<close> starts has the same rows
  and the same row count when it ends, and the log gains no activity of its loader (no
  call, no file read, no insert), whatever the other loaders do, also when one of them
  raises. When the three relations all hold a row, the run succeeds and changes no
  relation.
\<close>

theorem load_all_data_skips_loaded_relations:
  "(0 < count_rows d t \<longrightarrow>
      rows_of (snd (load_all_data F d)) t = rows_of d t
      \<and> count_rows (snd (load_all_data F d)) t = count_rows d t
      \<and> filter (loader_activity t) (dblog (snd (load_all_data F d)))
          = filter (loader_activity t) (dblog d))
   \<and> (0 < count_rows d marine_protected_areas \<and> 0 < count_rows d cetacean_sightings
        \<and> 0 < count_rows d ais_positions \<longrightarrow>
      fst (load_all_data F d) = Inr ()
      \<and> rows_of (snd (load_all_data F d)) = rows_of d
      \<and> staging (snd (load_all_data F d)) = staging d)"
proof (intro conjI impI)
  assume "0 < count_rows d t"
  then have u: "untouched t d (snd (load_all_data F d))"
    by (rule load_all_data_untouched)
  then show "rows_of (snd (load_all_data F d)) t = rows_of d t"
    by (simp add: untouched_def)
  from u show "count_rows (snd (load_all_data F d)) t = count_rows d t"
    by (rule count_rows_untouched)
  from u show "filter (loader_activity t) (dblog (snd (load_all_data F d)))
                 = filter (loader_activity t) (dblog d)"
    by (simp add: untouched_def)
next
  assume all: "0 < count_rows d marine_protected_areas \<and> 0 < count_rows d cetacean_sightings
        \<and> 0 < count_rows d ais_positions"
  then have "\<forall>t \<in> set [marine_protected_areas, cetacean_sightings, ais_positions].
               0 < count_rows d t"
    by simp
  note run = load_tables_all_loaded [OF this, of F]
  show "fst (load_all_data F d) = Inr ()"
    by (simp add: load_all_data_def run del: load_tables.simps)
  show "rows_of (snd (load_all_data F d)) = rows_of d"
    by (simp add: load_all_data_def run logged_def final_counts_rows del: load_tables.simps)
  show "staging (snd (load_all_data F d)) = staging d"
    by (simp add: load_all_data_def run logged_def final_counts_rows del: load_tables.simps)
qed

subsection \<open>The staged bulk loader\<close>

lemma logged_files_append: "logged_files (xs @ ys) = logged_files xs @ logged_files ys"
  by (induction xs rule: logged_files.induct) simp_all

lemma logged_totals_append: "logged_totals (xs @ ys) = logged_totals xs @ logged_totals ys"
  by (induction xs rule: logged_totals.induct) simp_all

lemma running_totals_prefix_sums:
  "running_totals acc ns = map (\<lambda>k. acc + sum_list (take (Suc k) ns)) [0..<length ns]"
proof (induction ns arbitrary: acc)
  case Nil
  then show ?case by simp
next
  case (Cons n ns)
  have "[0..<length (n # ns)] = 0 # map Suc [0..<length ns]"
    by (simp add: upt_conv_Cons map_Suc_upt del: upt_Suc)
  then show ?case
    by (simp add: Cons.IH comp_def add.assoc del: upt_Suc)
qed

lemma step_accepted:
  assumes "staging d = None" and "accepted d flat"
  shows "\<exists>d3. create_staging (logged (FileRead ais_positions name) d) = Inr
               (logged StagingCreated (logged (FileRead ais_positions name) d\<lparr>staging := Some []\<rparr>))
           \<and> (\<exists>d2. copy_expert flat
                   (logged StagingCreated (logged (FileRead ais_positions name) d\<lparr>staging := Some []\<rparr>))
                     = Inr d2
                 \<and> insert_from_staging d2 = Inr d3)
           \<and> staging (drop_staging d3) = None
           \<and> copy_in (drop_staging d3) = copy_in d
           \<and> convert (drop_staging d3) = convert d
           \<and> rows_of (drop_staging d3) ais_positions = rows_of d ais_positions @ loaded_rows d flat
           \<and> logged_files (dblog (drop_staging d3)) = logged_files (dblog d)
           \<and> logged_totals (dblog (drop_staging d3)) = logged_totals (dblog d)"
proof -
  from assms(2) obtain parsed typed
    where p: "copy_in d flat = Some parsed" and c: "convert d parsed = Some typed"
    by (auto simp: accepted_def split: option.splits)
  let ?d1 = "logged StagingCreated (logged (FileRead ais_positions name) d\<lparr>staging := Some []\<rparr>)"
  let ?d2 = "logged (StagingCopied (length parsed)) (?d1\<lparr>staging := Some parsed\<rparr>)"
  let ?d3 = "insert_rows ais_positions typed ?d2"
  have a: "create_staging (logged (FileRead ais_positions name) d) = Inr ?d1"
    using assms(1) by (simp add: create_staging_def logged_def)
  have b: "copy_expert flat ?d1 = Inr ?d2"
    using p by (simp add: copy_expert_def logged_def)
  have e: "insert_from_staging ?d2 = Inr ?d3"
    using c by (simp add: insert_from_staging_def logged_def)
  have f: "staging (drop_staging ?d3) = None \<and> copy_in (drop_staging ?d3) = copy_in d
           \<and> convert (drop_staging ?d3) = convert d"
    by (simp add: drop_staging_def insert_rows_def logged_def)
  have g: "rows_of (drop_staging ?d3) ais_positions = rows_of d ais_positions @ loaded_rows d flat"
    using p c by (simp add: drop_staging_def insert_rows_def logged_def loaded_rows_def)
  have h: "logged_files (dblog (drop_staging ?d3)) = logged_files (dblog d)
           \<and> logged_totals (dblog (drop_staging ?d3)) = logged_totals (dblog d)"
    by (simp add: drop_staging_def insert_rows_def logged_def logged_files_append
        logged_totals_append)
  from a b e f g h show ?thesis by blast
qed

lemma accepted_cong:
  "copy_in d' = copy_in d \<Longrightarrow> convert d' = convert d \<Longrightarrow>
   accepted d' = accepted d \<and> loaded_rows d' = loaded_rows d"
  by (intro conjI ext) (simp_all add: accepted_def loaded_rows_def cong: option.case_cong)

lemma load_ais_files_ok:
  assumes "staging d = None"
    and "\<forall>entry \<in> set fs. loads d (snd entry)"
  shows "fst (load_ais_files n_files file_idx fs (total_loaded, d))
           = Inr (total_loaded + sum_list (map n_rows_of fs))
       \<and> staging (snd (load_ais_files n_files file_idx fs (total_loaded, d))) = None
       \<and> rows_of (snd (load_ais_files n_files file_idx fs (total_loaded, d))) ais_positions
           = rows_of d ais_positions
             @ concat (map (\<lambda>entry. loaded_rows d (rows_in (snd entry))) fs)
       \<and> logged_files (dblog (snd (load_ais_files n_files file_idx fs (total_loaded, d))))
           = logged_files (dblog d) @ map fst fs
       \<and> logged_totals (dblog (snd (load_ais_files n_files file_idx fs (total_loaded, d))))
           = logged_totals (dblog d) @ running_totals total_loaded (map n_rows_of fs)"
  using assms
proof (induction fs arbitrary: file_idx total_loaded d)
  case Nil
  then show ?case by simp
next
  case (Cons entry fs)
  obtain name content where entry: "entry = (name, content)"
    by (cases entry)
  with Cons.prems(2) obtain flat where content: "content = Parquet flat"
    by (cases content) (auto simp: loads_def)
  from Cons.prems(2) entry content have acc: "accepted d flat"
    by (simp add: loads_def)
  from step_accepted [OF Cons.prems(1) acc, of name] obtain d2 d3
    where a: "create_staging (logged (FileRead ais_positions name) d) = Inr
               (logged StagingCreated (logged (FileRead ais_positions name) d\<lparr>staging := Some []\<rparr>))"
      and b: "copy_expert flat
                (logged StagingCreated (logged (FileRead ais_positions name) d\<lparr>staging := Some []\<rparr>))
                  = Inr d2"
      and e: "insert_from_staging d2 = Inr d3"
      and s3: "staging (drop_staging d3) = None"
      and ci: "copy_in (drop_staging d3) = copy_in d"
      and cv: "convert (drop_staging d3) = convert d"
      and r3: "rows_of (drop_staging d3) ais_positions = rows_of d ais_positions @ loaded_rows d flat"
      and lf: "logged_files (dblog (drop_staging d3)) = logged_files (dblog d)"
      and lt: "logged_totals (dblog (drop_staging d3)) = logged_totals (dblog d)"
    by blast
  let ?d5 = "logged (FileLoaded file_idx n_files name (length flat) (total_loaded + length flat))
               (drop_staging d3)"
  have step: "load_ais_files n_files file_idx (entry # fs) (total_loaded, d)
                = load_ais_files n_files (file_idx + 1) fs (total_loaded + length flat, ?d5)"
    using entry content a b e by (simp add: Let_def)
  have d1: "staging ?d5 = None"
    using s3 by (simp add: logged_def)
  have same: "accepted ?d5 = accepted d \<and> loaded_rows ?d5 = loaded_rows d"
    by (rule accepted_cong) (simp_all add: logged_def ci cv)
  then have same_loads: "loads ?d5 = loads d"
    by (intro ext) (simp add: loads_def cong: parquet.case_cong)
  have d2: "rows_of ?d5 ais_positions = rows_of d ais_positions @ loaded_rows d flat"
    using r3 by (simp add: logged_def)
  have d3: "logged_files (dblog ?d5) = logged_files (dblog d) @ [name]"
    using lf by (simp add: logged_def logged_files_append)
  have d4: "logged_totals (dblog ?d5) = logged_totals (dblog d) @ [total_loaded + length flat]"
    using lt by (simp add: logged_def logged_totals_append)
  from Cons.prems(2) same_loads
  have rest: "\<forall>entry \<in> set fs. loads ?d5 (snd entry)"
    by simp
  note ih = Cons.IH [OF d1 rest, of "file_idx + 1" "total_loaded + length flat"]
  show ?case
    unfolding step
    using ih by (simp add: d2 d3 d4 same entry content n_rows_of_def)
qed

text \<open>
  Claim C6, as the code has it. With no staging relation left over and every matching file
  loading (it reads, its rows can be built, and the \<open>COPY\<close> and the \<open>INSERT ... SELECT\<close>
  both succeed on them), \<open>load_ais_data\<close> on a non-empty set of files processes them in
  the sorted order of their names, logs after the \<open>k\<close>-th file the sum of the row counts
  of the first \<open>k\<close> files, logs last the sum over all files, appends to \<open>ais_positions\<close>
  what the server made of the rows of each file, in that order, and returns \<open>None\<close>.
\<close>

theorem load_ais_data_logs_running_totals:
  assumes "staging d = None"
    and "sort_key fst (glob_parquet (ais_dir F)) \<noteq> []"
    and "\<forall>entry \<in> set (glob_parquet (ais_dir F)). loads d (snd entry)"
  shows "fst (load_ais_data F d) = Inr None
       \<and> sorted (map fst (sort_key fst (glob_parquet (ais_dir F))))
       \<and> logged_files (dblog (snd (load_ais_data F d)))
           = logged_files (dblog d) @ map fst (sort_key fst (glob_parquet (ais_dir F)))
       \<and> logged_totals (dblog (snd (load_ais_data F d)))
           = logged_totals (dblog d)
             @ map (\<lambda>k. sum_list (take (Suc k) (map n_rows_of (sort_key fst (glob_parquet (ais_dir F))))))
                 [0..<length (sort_key fst (glob_parquet (ais_dir F)))]
       \<and> last (dblog (snd (load_ais_data F d)))
           = AisComplete (sum_list (map n_rows_of (sort_key fst (glob_parquet (ais_dir F)))))
       \<and> rows_of (snd (load_ais_data F d)) ais_positions
           = rows_of d ais_positions
             @ concat (map (\<lambda>entry. loaded_rows d (rows_in (snd entry)))
                         (sort_key fst (glob_parquet (ais_dir F))))
       \<and> staging (snd (load_ais_data F d)) = None"
proof -
  let ?fs = "sort_key fst (glob_parquet (ais_dir F))"
  let ?d = "logged (LoaderCalled ais_positions) d"
  have s: "staging ?d = None"
    using assms(1) by (simp add: logged_def)
  have same: "accepted ?d = accepted d \<and> loaded_rows ?d = loaded_rows d"
    by (rule accepted_cong) (simp_all add: logged_def)
  have "loads ?d = loads d"
    using same by (intro ext) (simp add: loads_def cong: parquet.case_cong)
  with assms(3) have ok: "\<forall>entry \<in> set ?fs. loads ?d (snd entry)"
    by simp
  obtain r d1 where run: "load_ais_files (length ?fs) 1 ?fs (0, ?d) = (r, d1)"
    by (cases "load_ais_files (length ?fs) 1 ?fs (0, ?d)")
  from load_ais_files_ok [OF s ok, of "length ?fs" 1 0] run same
  have r: "r = Inr (sum_list (map n_rows_of ?fs))"
    and st: "staging d1 = None"
    and rows: "rows_of d1 ais_positions
                 = rows_of d ais_positions
                   @ concat (map (\<lambda>entry. loaded_rows d (rows_in (snd entry))) ?fs)"
    and lf: "logged_files (dblog d1) = logged_files (dblog d) @ map fst ?fs"
    and lt: "logged_totals (dblog d1)
               = logged_totals (dblog d) @ running_totals 0 (map n_rows_of ?fs)"
    by (simp_all add: logged_def logged_files_append logged_totals_append)
  have res: "load_ais_data F d
               = (Inr None, logged (AisComplete (sum_list (map n_rows_of ?fs))) d1)"
    using assms(2) run r by (simp add: load_ais_data_def Let_def)
  show ?thesis
    unfolding res
    by (simp add: logged_def rows lf lt st logged_files_append logged_totals_append
        running_totals_prefix_sums)
qed

text \<open>
  Claim C6, as stated, fails in its last part: on the three files of ten rows each the
  running totals 10, 20, 30 and the final total 30 are logged and the relation holds 30
  rows, but the value returned is \<open>None\<close>, not 30.
\<close>

theorem load_ais_data_returns_none_not_total:
  "fst (load_ais_data three_day_files empty_db) = Inr None
   \<and> fst (load_ais_data three_day_files empty_db) \<noteq> Inr (Some 30)
   \<and> logged_totals (dblog (snd (load_ais_data three_day_files empty_db))) = [10, 20, 30]
   \<and> last (dblog (snd (load_ais_data three_day_files empty_db))) = AisComplete 30
   \<and> count_rows (snd (load_ais_data three_day_files empty_db)) ais_positions = 30"
  by code_simp

text \<open>The same three files, read through the general statement.\<close>

theorem load_ais_data_logs_running_totals_witness:
  "staging empty_db = None
   \<and> sort_key fst (glob_parquet (ais_dir three_day_files)) =
       [(''ais-2024-01-01.parquet'', Parquet (ten_rows ''2024-01-01'')),
        (''ais-2024-01-02.parquet'', Parquet (ten_rows ''2024-01-02'')),
        (''ais-2024-01-03.parquet'', Parquet (ten_rows ''2024-01-03''))]
   \<and> accepted empty_db (ten_rows ''2024-01-01'')
   \<and> accepted empty_db (ten_rows ''2024-01-02'')
   \<and> accepted empty_db (ten_rows ''2024-01-03'')
   \<and> fst (load_ais_data three_day_files empty_db) = Inr None
   \<and> logged_files (dblog (snd (load_ais_data three_day_files empty_db)))
       = [''ais-2024-01-01.parquet'', ''ais-2024-01-02.parquet'', ''ais-2024-01-03.parquet'']
   \<and> logged_totals (dblog (snd (load_ais_data three_day_files empty_db))) = [10, 20, 30]
   \<and> last (dblog (snd (load_ais_data three_day_files empty_db))) = AisComplete 30"
proof -
  let ?fs = "sort_key fst (glob_parquet (ais_dir three_day_files))"
  have h1: "staging empty_db = None"
    by (simp add: empty_db_def)
  have fs: "?fs =
       [(''ais-2024-01-01.parquet'', Parquet (ten_rows ''2024-01-01'')),
        (''ais-2024-01-02.parquet'', Parquet (ten_rows ''2024-01-02'')),
        (''ais-2024-01-03.parquet'', Parquet (ten_rows ''2024-01-03''))]"
    by code_simp
  have h2: "?fs \<noteq> []"
    by (simp add: fs)
  have a1: "accepted empty_db (ten_rows ''2024-01-01'')"
    and a2: "accepted empty_db (ten_rows ''2024-01-02'')"
    and a3: "accepted empty_db (ten_rows ''2024-01-03'')"
    by code_simp+
  have h3: "\<forall>entry \<in> set (glob_parquet (ais_dir three_day_files)). loads empty_db (snd entry)"
    using a1 a2 a3 by (simp add: glob_parquet_def three_day_files_def endswith_def loads_def)
  have counts: "map n_rows_of ?fs = [10, 10, 10]"
    by (simp add: fs n_rows_of_def ten_rows_def)
  have totals: "map (\<lambda>k. sum_list (take (Suc k) (map n_rows_of ?fs))) [0..<length ?fs] = [10, 20, 30]"
    unfolding counts by (simp add: fs upt_rec)
  have log0: "logged_files (dblog empty_db) = [] \<and> logged_totals (dblog empty_db) = []"
    by (simp add: empty_db_def)
  note t = load_ais_data_logs_running_totals [OF h1 h2 h3]
  from t have a: "fst (load_ais_data three_day_files empty_db) = Inr None"
    by blast
  from t have "logged_files (dblog (snd (load_ais_data three_day_files empty_db)))
                 = logged_files (dblog empty_db) @ map fst ?fs"
    by blast
  then have b: "logged_files (dblog (snd (load_ais_data three_day_files empty_db)))
       = [''ais-2024-01-01.parquet'', ''ais-2024-01-02.parquet'', ''ais-2024-01-03.parquet'']"
    by (simp add: log0 fs)
  from t have "logged_totals (dblog (snd (load_ais_data three_day_files empty_db)))
           = logged_totals (dblog empty_db)
             @ map (\<lambda>k. sum_list (take (Suc k) (map n_rows_of ?fs))) [0..<length ?fs]"
    by blast
  then have c: "logged_totals (dblog (snd (load_ais_data three_day_files empty_db))) = [10, 20, 30]"
    by (simp only: totals log0 append_Nil)
  from t have "last (dblog (snd (load_ais_data three_day_files empty_db)))
           = AisComplete (sum_list (map n_rows_of ?fs))"
    by blast
  then have e: "last (dblog (snd (load_ais_data three_day_files empty_db))) = AisComplete 30"
    by (simp add: counts)
  from h1 fs a1 a2 a3 a b c e show ?thesis
    by blast
qed

text \<open>
  A readable file that the server rejects: the one row has a tab in a text field, the
  \<open>COPY\<close> raises, the exception leaves \<open>load_ais_data\<close>, no row reaches \<open>ais_positions\<close>,
  no total is logged, and the empty staging relation stays in the session.
\<close>

lemma load_ais_data_rejected_file_raises:
  "\<not> accepted empty_db [[''367000000'', [CHR ''A'', CHR 0x09, CHR ''B'']]]
   \<and> fst (load_ais_data tab_file empty_db) = Inl DatabaseError
   \<and> count_rows (snd (load_ais_data tab_file empty_db)) ais_positions = 0
   \<and> logged_totals (dblog (snd (load_ais_data tab_file empty_db))) = []
   \<and> staging (snd (load_ais_data tab_file empty_db)) = Some []"
  by code_simp

text \<open>
  With only \<open>marine_protected_areas\<close> loaded, its row stays while \<open>cetacean_sightings\<close> is
  loaded from its file; with all three loaded nothing changes.
\<close>

theorem load_all_data_skips_loaded_relations_witness:
  "0 < count_rows mpa_loaded_db marine_protected_areas
   \<and> rows_of (snd (load_all_data all_files mpa_loaded_db)) marine_protected_areas = [[''site'']]
   \<and> filter (loader_activity marine_protected_areas)
        (dblog (snd (load_all_data all_files mpa_loaded_db))) = []
   \<and> count_rows (snd (load_all_data all_files mpa_loaded_db)) cetacean_sightings = 1
   \<and> 0 < count_rows loaded_db marine_protected_areas
   \<and> 0 < count_rows loaded_db cetacean_sightings
   \<and> 0 < count_rows loaded_db ais_positions
   \<and> fst (load_all_data all_files loaded_db) = Inr ()
   \<and> rows_of (snd (load_all_data all_files loaded_db)) = rows_of loaded_db"
proof -
  have h1: "0 < count_rows mpa_loaded_db marine_protected_areas"
    by (simp add: count_rows_def mpa_loaded_db_def)
  have h2: "0 < count_rows loaded_db marine_protected_areas \<and> 0 < count_rows loaded_db cetacean_sightings
            \<and> 0 < count_rows loaded_db ais_positions"
    by (simp add: count_rows_def loaded_db_def)
  note one = load_all_data_skips_loaded_relations
    [where d = mpa_loaded_db and t = marine_protected_areas and F = all_files]
  note all = load_all_data_skips_loaded_relations
    [where d = loaded_db and t = marine_protected_areas and F = all_files]
  from one h1 have "rows_of (snd (load_all_data all_files mpa_loaded_db)) marine_protected_areas
                      = rows_of mpa_loaded_db marine_protected_areas"
    by blast
  then have a: "rows_of (snd (load_all_data all_files mpa_loaded_db)) marine_protected_areas
                  = [[''site'']]"
    by (simp add: mpa_loaded_db_def)
  from one h1 have "filter (loader_activity marine_protected_areas)
        (dblog (snd (load_all_data all_files mpa_loaded_db)))
          = filter (loader_activity marine_protected_areas) (dblog mpa_loaded_db)"
    by blast
  then have b: "filter (loader_activity marine_protected_areas)
        (dblog (snd (load_all_data all_files mpa_loaded_db))) = []"
    by (simp add: mpa_loaded_db_def)
  have c: "count_rows (snd (load_all_data all_files mpa_loaded_db)) cetacean_sightings = 1"
    by code_simp
  from all h2 have d: "fst (load_all_data all_files loaded_db) = Inr ()"
    and e: "rows_of (snd (load_all_data all_files loaded_db)) = rows_of loaded_db"
    by blast+
  from h1 a b c h2 d e show ?thesis
    by blast
qed

end
